theory Spec2Isabelle
  imports
    Complex_Main
    "HOL-Library.Sublist"
    "HOL-Library.Char_ord"
    "HOL-Library.List_Lexorder"
    "HOL-Library.Product_Lexorder"
begin

section \<open>Python values, exceptions and statements\<close>

text \<open>
  The exceptions that the modelled code can raise. \<open>ValueError\<close> carries its message; the
  specification calls the \<open>ValueError\<close> of an unknown \<open>costType\<close> or \<open>doneType\<close>
  \<open>InvalidConfiguration\<close>, the \<open>ValueError\<close> that numpy raises for an empty sampling range
  \<open>EmptyBufferError\<close>, and the \<open>IndexError\<close> of \<open>heapq.nlargest(1, [])[0]\<close>
  \<open>EmptyTrackerError\<close>.
\<close>

datatype error =
    ValueError string
  | IndexError
  | KeyError string
  | TypeError
  | ZeroDivisionError

text \<open>
  A method body is a sequence of statements run on the object's state. Each statement
  either raises without changing the state or returns the changed state; the body stops
  at the first statement that raises and the state keeps what the earlier statements
  wrote.
\<close>

fun run_steps :: "('s \<Rightarrow> error + 's) list \<Rightarrow> 's \<Rightarrow> error option \<times> 's" where
  "run_steps [] s = (None, s)"
| "run_steps (f # fs) s = (case f s of Inl e \<Rightarrow> (Some e, s) | Inr s' \<Rightarrow> run_steps fs s')"

text \<open>
  An integer index into an axis of length \<open>n\<close>: a negative index counts from the end, an
  index outside \<open>[-n, n)\<close> raises \<open>IndexError\<close>.
\<close>

definition py_index :: "nat \<Rightarrow> int \<Rightarrow> nat option" where
  "py_index n i =
     (if 0 \<le> i \<and> i < int n then Some (nat i)
      else if - int n \<le> i \<and> i < 0 then Some (nat (i + int n))
      else None)"

text \<open>\<open>xs[i] = v\<close> on the first axis of an array.\<close>

definition setitem :: "'a list \<Rightarrow> int \<Rightarrow> 'a \<Rightarrow> error + 'a list" where
  "setitem xs i v =
     (case py_index (length xs) i of
        None \<Rightarrow> Inl IndexError
      | Some j \<Rightarrow> Inr (xs[j := v]))"

text \<open>\<open>xs[idxs]\<close> with an integer index array: one row per index, in the order of \<open>idxs\<close>.\<close>

fun getitems :: "'a list \<Rightarrow> int list \<Rightarrow> error + 'a list" where
  "getitems xs [] = Inr []"
| "getitems xs (i # is) =
     (case py_index (length xs) i of
        None \<Rightarrow> Inl IndexError
      | Some j \<Rightarrow> (case getitems xs is of Inl e \<Rightarrow> Inl e | Inr ys \<Rightarrow> Inr (xs ! j # ys)))"

text \<open>
  \<open>np.random.randint(low, high, size=n)\<close>. The generator is the parameter \<open>rng\<close>, the
  stream of its raw draws; the \<open>k\<close>-th index is \<open>low + rng k mod (high - low)\<close>, so every
  sequence of indices in \<open>[low, high)\<close> is the result for some \<open>rng\<close>. numpy returns the
  empty array for \<open>n = 0\<close> before it looks at the range, and raises
  \<open>ValueError\<close> for an empty range otherwise.
\<close>

definition randint :: "(nat \<Rightarrow> nat) \<Rightarrow> int \<Rightarrow> int \<Rightarrow> nat \<Rightarrow> error + int list" where
  "randint rng low high n =
     (if n = 0 then Inr []
      else if high \<le> low then Inl (ValueError ''low >= high'')
      else Inr (map (\<lambda>k. low + int (rng k) mod (high - low)) [0..<n]))"


section \<open>ReplayBuffer\<close>

text \<open>
  The buffer of \<open>models/RARL/utils.py\<close>: seven parallel arrays of \<open>max_size\<close> rows, the write
  pointer \<open>ptr\<close>, the fill count (the field \<open>size\<close> of the source, here \<open>size_buf\<close>) and
  \<open>ptr_start\<close>. A row of an observation array has type \<open>'o\<close>, a row of the action array
  type \<open>'a\<close>; the scalar arrays hold numbers (the value that numpy keeps after its cast to
  \<open>float32\<close>).
\<close>

record ('o, 'a) ReplayBuffer =
  obs_buf :: "'o list"
  obs2_buf :: "'o list"
  act_buf :: "'a list"
  rew_buf :: "real list"
  done_buf :: "real list"
  lx_buf :: "real list"
  gx_buf :: "real list"
  ptr :: int
  size_buf :: int
  max_size :: int
  ptr_start :: int

text \<open>\<open>__init__\<close> with the argument \<open>size\<close> (here \<open>sz\<close>): \<open>np.zeros\<close> refuses a negative length.\<close>

definition ReplayBuffer_init :: "int \<Rightarrow> error + ('o::zero, 'a::zero) ReplayBuffer" where
  "ReplayBuffer_init sz =
     (if sz < 0 then Inl (ValueError ''negative dimensions are not allowed'')
      else Inr \<lparr> obs_buf = replicate (nat sz) 0,
                 obs2_buf = replicate (nat sz) 0,
                 act_buf = replicate (nat sz) 0,
                 rew_buf = replicate (nat sz) 0,
                 done_buf = replicate (nat sz) 0,
                 lx_buf = replicate (nat sz) 0,
                 gx_buf = replicate (nat sz) 0,
                 ptr = 0, size_buf = 0, max_size = sz, ptr_start = 0 \<rparr>)"

text \<open>\<open>store\<close>, statement by statement.\<close>

definition advance_ptr :: "('o, 'a) ReplayBuffer \<Rightarrow> error + ('o, 'a) ReplayBuffer" where
  "advance_ptr s =
     (if max_size s - ptr_start s = 0 then Inl ZeroDivisionError
      else Inr (s\<lparr>ptr := ptr_start s + (ptr s + 1 - ptr_start s) mod (max_size s - ptr_start s)\<rparr>))"

definition store ::
  "('o, 'a) ReplayBuffer \<Rightarrow> 'o \<Rightarrow> 'a \<Rightarrow> real \<Rightarrow> 'o \<Rightarrow> real \<Rightarrow> real \<Rightarrow> real
     \<Rightarrow> error option \<times> ('o, 'a) ReplayBuffer" where
  "store self obs act rew next_obs done lx gx =
     run_steps
       [\<lambda>s. map_sum id (\<lambda>v. s\<lparr>obs_buf := v\<rparr>) (setitem (obs_buf s) (ptr s) obs),
        \<lambda>s. map_sum id (\<lambda>v. s\<lparr>obs2_buf := v\<rparr>) (setitem (obs2_buf s) (ptr s) next_obs),
        \<lambda>s. map_sum id (\<lambda>v. s\<lparr>act_buf := v\<rparr>) (setitem (act_buf s) (ptr s) act),
        \<lambda>s. map_sum id (\<lambda>v. s\<lparr>rew_buf := v\<rparr>) (setitem (rew_buf s) (ptr s) rew),
        \<lambda>s. map_sum id (\<lambda>v. s\<lparr>done_buf := v\<rparr>) (setitem (done_buf s) (ptr s) done),
        \<lambda>s. map_sum id (\<lambda>v. s\<lparr>lx_buf := v\<rparr>) (setitem (lx_buf s) (ptr s) lx),
        \<lambda>s. map_sum id (\<lambda>v. s\<lparr>gx_buf := v\<rparr>) (setitem (gx_buf s) (ptr s) gx),
        advance_ptr,
        \<lambda>s. Inr (s\<lparr>size_buf := min (size_buf s + 1) (max_size s)\<rparr>)]
       self"

text \<open>
  A transition is the argument tuple of one \<open>store\<close> call; \<open>store_all\<close> is a caller that
  stores a sequence of transitions and stops at the first call that raises.
\<close>

type_synonym ('o, 'a) transition = "'o \<times> 'a \<times> real \<times> 'o \<times> real \<times> real \<times> real"

fun store_all ::
  "('o, 'a) ReplayBuffer \<Rightarrow> ('o, 'a) transition list \<Rightarrow> error option \<times> ('o, 'a) ReplayBuffer" where
  "store_all self [] = (None, self)"
| "store_all self ((obs, act, rew, next_obs, done, lx, gx) # ts) =
     (case store self obs act rew next_obs done lx gx of
        (Some e, self') \<Rightarrow> (Some e, self')
      | (None, self') \<Rightarrow> store_all self' ts)"

text \<open>The transition read back from row \<open>i\<close> of the parallel arrays, and all rows in order.\<close>

definition slot :: "('o, 'a) ReplayBuffer \<Rightarrow> nat \<Rightarrow> ('o, 'a) transition" where
  "slot self i =
     (obs_buf self ! i, act_buf self ! i, rew_buf self ! i, obs2_buf self ! i,
      done_buf self ! i, lx_buf self ! i, gx_buf self ! i)"

definition slots :: "('o, 'a) ReplayBuffer \<Rightarrow> ('o, 'a) transition list" where
  "slots self = map (slot self) [0..<nat (max_size self)]"

text \<open>
  The batch returned by \<open>sample_batch\<close>: a dictionary with the seven keys below, each array
  indexed by the same \<open>idxs\<close>. The conversion to a tensor keeps the values.
\<close>

record ('o, 'a) batch =
  b_obs :: "'o list"
  b_obs2 :: "'o list"
  b_act :: "'a list"
  b_rew :: "real list"
  b_done :: "real list"
  b_lx :: "real list"
  b_gx :: "real list"

definition sample_batch ::
  "('o, 'a) ReplayBuffer \<Rightarrow> (nat \<Rightarrow> nat) \<Rightarrow> nat
     \<Rightarrow> (error + ('o, 'a) batch) \<times> ('o, 'a) ReplayBuffer" where
  "sample_batch self rng batch_size =
     (case randint rng 0 (size_buf self) batch_size of
        Inl e \<Rightarrow> (Inl e, self)
      | Inr idxs \<Rightarrow>
          (case (getitems (obs_buf self) idxs, getitems (obs2_buf self) idxs,
                 getitems (act_buf self) idxs, getitems (rew_buf self) idxs,
                 getitems (done_buf self) idxs, getitems (lx_buf self) idxs,
                 getitems (gx_buf self) idxs) of
             (Inr o1, Inr o2, Inr a, Inr r, Inr d, Inr l, Inr g) \<Rightarrow>
               (Inr \<lparr> b_obs = o1, b_obs2 = o2, b_act = a, b_rew = r, b_done = d,
                      b_lx = l, b_gx = g \<rparr>, self)
           | _ \<Rightarrow> (Inl IndexError, self)))"

text \<open>Entry \<open>j\<close> of a batch, across the parallel fields.\<close>

definition batch_entry :: "('o, 'a) batch \<Rightarrow> nat \<Rightarrow> ('o, 'a) transition" where
  "batch_entry b j =
     (b_obs b ! j, b_act b ! j, b_rew b ! j, b_obs2 b ! j, b_done b ! j, b_lx b ! j, b_gx b ! j)"

text \<open>
  The class invariant that \<open>__init__\<close> establishes and \<open>store\<close> keeps: every array has
  \<open>max_size\<close> rows, \<open>ptr_start\<close> is 0, the pointer is a row index and the fill count is at
  most the capacity.
\<close>

definition buffer_inv :: "('o, 'a) ReplayBuffer \<Rightarrow> bool" where
  "buffer_inv s \<longleftrightarrow>
     0 < max_size s \<and> ptr_start s = 0 \<and> 0 \<le> ptr s \<and> ptr s < max_size s \<and>
     0 \<le> size_buf s \<and> size_buf s \<le> max_size s \<and>
     int (length (obs_buf s)) = max_size s \<and> int (length (obs2_buf s)) = max_size s \<and>
     int (length (act_buf s)) = max_size s \<and> int (length (rew_buf s)) = max_size s \<and>
     int (length (done_buf s)) = max_size s \<and> int (length (lx_buf s)) = max_size s \<and>
     int (length (gx_buf s)) = max_size s"

text \<open>
  The history invariant behind the FIFO law: after the transitions \<open>hist\<close> have been
  stored, the pointer is \<open>length hist mod max_size\<close>, the fill count is
  \<open>min (length hist) max_size\<close>, and each of the last \<open>max_size\<close> transitions sits in
  the row given by its position modulo the capacity.
\<close>

definition ring_inv :: "('o, 'a) ReplayBuffer \<Rightarrow> ('o, 'a) transition list \<Rightarrow> bool" where
  "ring_inv s hist \<longleftrightarrow>
     buffer_inv s \<and> ptr s = int (length hist) mod max_size s \<and>
     size_buf s = min (int (length hist)) (max_size s) \<and>
     (\<forall>j < length hist. length hist \<le> j + nat (max_size s) \<longrightarrow>
        slot s (j mod nat (max_size s)) = hist ! j)"


section \<open>ReplayBufferMultimodal\<close>

text \<open>
  The observation arrays are dictionaries from the stream name to that stream's array,
  written as association lists in the dictionary's key order. A row of a stream has
  type \<open>'x\<close>. The fields carry the suffix \<open>_mm\<close> to keep them apart from those of
  \<open>ReplayBuffer\<close>. An observation shape is the tuple of its dimensions.
\<close>

record ('x, 'a) ReplayBufferMultimodal =
  env_observation_shapes :: "(string \<times> nat list) list"
  obs_buf_mm :: "(string \<times> 'x list) list"
  obs2_buf_mm :: "(string \<times> 'x list) list"
  act_buf_mm :: "'a list"
  rew_buf_mm :: "real list"
  done_buf_mm :: "real list"
  lx_buf_mm :: "real list"
  gx_buf_mm :: "real list"
  ptr_mm :: int
  size_mm :: int
  max_size_mm :: int
  ptr_start_mm :: int

definition ReplayBufferMultimodal_init ::
  "(string \<times> nat list) list \<Rightarrow> int \<Rightarrow> error + ('x::zero, 'a::zero) ReplayBufferMultimodal" where
  "ReplayBufferMultimodal_init shapes sz =
     (if sz < 0 then Inl (ValueError ''negative dimensions are not allowed'')
      else Inr \<lparr> env_observation_shapes = shapes,
                 obs_buf_mm = map (\<lambda>obs_type. (obs_type, replicate (nat sz) 0)) (map fst shapes),
                 obs2_buf_mm = map (\<lambda>obs_type. (obs_type, replicate (nat sz) 0)) (map fst shapes),
                 act_buf_mm = replicate (nat sz) 0,
                 rew_buf_mm = replicate (nat sz) 0,
                 done_buf_mm = replicate (nat sz) 0,
                 lx_buf_mm = replicate (nat sz) 0,
                 gx_buf_mm = replicate (nat sz) 0,
                 ptr_mm = 0, size_mm = 0, max_size_mm = sz, ptr_start_mm = 0 \<rparr>)"

text \<open>\<open>d[k]\<close> on a dictionary raises \<open>KeyError\<close> for a missing key.\<close>

definition dict_get :: "(string \<times> 'v) list \<Rightarrow> string \<Rightarrow> error + 'v" where
  "dict_get d k = (case map_of d k of None \<Rightarrow> Inl (KeyError k) | Some v \<Rightarrow> Inr v)"

text \<open>
  \<open>d[k][i] = v\<close>: the array stored under \<open>k\<close> is changed in place, the dictionary keeps
  its keys and their order.
\<close>

fun set_row :: "(string \<times> 'x list) list \<Rightarrow> string \<Rightarrow> int \<Rightarrow> 'x \<Rightarrow> error + (string \<times> 'x list) list" where
  "set_row [] k i v = Inl (KeyError k)"
| "set_row ((k', arr) # d) k i v =
     (if k' = k then (case setitem arr i v of Inl e \<Rightarrow> Inl e | Inr arr' \<Rightarrow> Inr ((k', arr') # d))
      else (case set_row d k i v of Inl e \<Rightarrow> Inl e | Inr d' \<Rightarrow> Inr ((k', arr) # d')))"

text \<open>
  The two statements of the loop body of \<open>store\<close> for one \<open>obs_type\<close>; the right-hand
  side is evaluated first.
\<close>

definition write_obs ::
  "(string \<times> 'x) list \<Rightarrow> string \<Rightarrow> ('x, 'a) ReplayBufferMultimodal
     \<Rightarrow> error + ('x, 'a) ReplayBufferMultimodal" where
  "write_obs obs obs_type s =
     (case dict_get obs obs_type of
        Inl e \<Rightarrow> Inl e
      | Inr v \<Rightarrow> map_sum id (\<lambda>d. s\<lparr>obs_buf_mm := d\<rparr>) (set_row (obs_buf_mm s) obs_type (ptr_mm s) v))"

definition write_obs2 ::
  "(string \<times> 'x) list \<Rightarrow> string \<Rightarrow> ('x, 'a) ReplayBufferMultimodal
     \<Rightarrow> error + ('x, 'a) ReplayBufferMultimodal" where
  "write_obs2 next_obs obs_type s =
     (case dict_get next_obs obs_type of
        Inl e \<Rightarrow> Inl e
      | Inr v \<Rightarrow> map_sum id (\<lambda>d. s\<lparr>obs2_buf_mm := d\<rparr>) (set_row (obs2_buf_mm s) obs_type (ptr_mm s) v))"

definition advance_ptr_mm ::
  "('x, 'a) ReplayBufferMultimodal \<Rightarrow> error + ('x, 'a) ReplayBufferMultimodal" where
  "advance_ptr_mm s =
     (if max_size_mm s - ptr_start_mm s = 0 then Inl ZeroDivisionError
      else Inr (s\<lparr>ptr_mm := ptr_start_mm s
                    + (ptr_mm s + 1 - ptr_start_mm s) mod (max_size_mm s - ptr_start_mm s)\<rparr>))"

definition store_mm ::
  "('x, 'a) ReplayBufferMultimodal \<Rightarrow> (string \<times> 'x) list \<Rightarrow> 'a \<Rightarrow> real \<Rightarrow> (string \<times> 'x) list
     \<Rightarrow> real \<Rightarrow> real \<Rightarrow> real \<Rightarrow> error option \<times> ('x, 'a) ReplayBufferMultimodal" where
  "store_mm self obs act rew next_obs done lx gx =
     run_steps
       (concat (map (\<lambda>obs_type. [write_obs obs obs_type, write_obs2 next_obs obs_type])
                    (map fst obs))
        @ [\<lambda>s. map_sum id (\<lambda>v. s\<lparr>act_buf_mm := v\<rparr>) (setitem (act_buf_mm s) (ptr_mm s) act),
           \<lambda>s. map_sum id (\<lambda>v. s\<lparr>rew_buf_mm := v\<rparr>) (setitem (rew_buf_mm s) (ptr_mm s) rew),
           \<lambda>s. map_sum id (\<lambda>v. s\<lparr>done_buf_mm := v\<rparr>) (setitem (done_buf_mm s) (ptr_mm s) done),
           \<lambda>s. map_sum id (\<lambda>v. s\<lparr>lx_buf_mm := v\<rparr>) (setitem (lx_buf_mm s) (ptr_mm s) lx),
           \<lambda>s. map_sum id (\<lambda>v. s\<lparr>gx_buf_mm := v\<rparr>) (setitem (gx_buf_mm s) (ptr_mm s) gx),
           advance_ptr_mm,
           \<lambda>s. Inr (s\<lparr>size_mm := min (size_mm s + 1) (max_size_mm s)\<rparr>)])
       self"

text \<open>
  \<open>unsqueeze(1)\<close> inserts an axis of length 1 after the batch axis: an array of \<open>n\<close> rows
  becomes an array of \<open>n\<close> windows, each holding one row.
\<close>

definition unsqueeze1 :: "'x list \<Rightarrow> 'x list list" where
  "unsqueeze1 xs = map (\<lambda>r. [r]) xs"

text \<open>
  The loop of \<open>sample_batch\<close> over \<open>self.obs_buf.keys()\<close>, building \<open>sample_obs\<close> and
  \<open>sample_obs2\<close>.
\<close>

fun sample_streams ::
  "(string \<times> 'x list) list \<Rightarrow> (string \<times> 'x list) list \<Rightarrow> int list \<Rightarrow> string list
     \<Rightarrow> error + ((string \<times> 'x list list) list \<times> (string \<times> 'x list list) list)" where
  "sample_streams ob ob2 idxs [] = Inr ([], [])"
| "sample_streams ob ob2 idxs (obs_type # ks) =
     (case dict_get ob obs_type of
        Inl e \<Rightarrow> Inl e
      | Inr a1 \<Rightarrow>
     (case getitems a1 idxs of
        Inl e \<Rightarrow> Inl e
      | Inr r1 \<Rightarrow>
     (case dict_get ob2 obs_type of
        Inl e \<Rightarrow> Inl e
      | Inr a2 \<Rightarrow>
     (case getitems a2 idxs of
        Inl e \<Rightarrow> Inl e
      | Inr r2 \<Rightarrow>
     (case sample_streams ob ob2 idxs ks of
        Inl e \<Rightarrow> Inl e
      | Inr (so, so2) \<Rightarrow>
          Inr ((obs_type, unsqueeze1 r1) # so, (obs_type, unsqueeze1 r2) # so2))))))"

record ('x, 'a) batch_mm =
  mb_obs :: "(string \<times> 'x list list) list"
  mb_obs2 :: "(string \<times> 'x list list) list"
  mb_act :: "'a list list"
  mb_rew :: "real list"
  mb_done :: "real list"
  mb_lx :: "real list"
  mb_gx :: "real list"

definition sample_batch_mm ::
  "('x, 'a) ReplayBufferMultimodal \<Rightarrow> (nat \<Rightarrow> nat) \<Rightarrow> nat
     \<Rightarrow> (error + ('x, 'a) batch_mm) \<times> ('x, 'a) ReplayBufferMultimodal" where
  "sample_batch_mm self rng batch_size =
     (case randint rng 0 (size_mm self) batch_size of
        Inl e \<Rightarrow> (Inl e, self)
      | Inr idxs \<Rightarrow>
     (case sample_streams (obs_buf_mm self) (obs2_buf_mm self) idxs (map fst (obs_buf_mm self)) of
        Inl e \<Rightarrow> (Inl e, self)
      | Inr (so, so2) \<Rightarrow>
          (case (getitems (act_buf_mm self) idxs, getitems (rew_buf_mm self) idxs,
                 getitems (done_buf_mm self) idxs, getitems (lx_buf_mm self) idxs,
                 getitems (gx_buf_mm self) idxs) of
             (Inr a, Inr r, Inr d, Inr l, Inr g) \<Rightarrow>
               (Inr \<lparr> mb_obs = so, mb_obs2 = so2, mb_act = unsqueeze1 a, mb_rew = r,
                      mb_done = d, mb_lx = l, mb_gx = g \<rparr>, self)
           | _ \<Rightarrow> (Inl IndexError, self))))"

text \<open>
  The invariant of the multimodal buffer: both observation dictionaries have the
  configured streams as keys, every array has \<open>max_size\<close> rows, and the counters are as
  in \<open>buffer_inv\<close>.
\<close>

definition buffer_inv_mm :: "('x, 'a) ReplayBufferMultimodal \<Rightarrow> bool" where
  "buffer_inv_mm s \<longleftrightarrow>
     0 < max_size_mm s \<and> ptr_start_mm s = 0 \<and> 0 \<le> ptr_mm s \<and> ptr_mm s < max_size_mm s \<and>
     0 \<le> size_mm s \<and> size_mm s \<le> max_size_mm s \<and>
     map fst (obs_buf_mm s) = map fst (env_observation_shapes s) \<and>
     map fst (obs2_buf_mm s) = map fst (env_observation_shapes s) \<and>
     list_all (\<lambda>(k, arr). int (length arr) = max_size_mm s) (obs_buf_mm s) \<and>
     list_all (\<lambda>(k, arr). int (length arr) = max_size_mm s) (obs2_buf_mm s) \<and>
     int (length (act_buf_mm s)) = max_size_mm s \<and> int (length (rew_buf_mm s)) = max_size_mm s \<and>
     int (length (done_buf_mm s)) = max_size_mm s \<and> int (length (lx_buf_mm s)) = max_size_mm s \<and>
     int (length (gx_buf_mm s)) = max_size_mm s"


section \<open>TopKLogger\<close>

text \<open>
  The functions of Python's \<open>heapq\<close> that \<open>TopKLogger\<close> calls, on the list that holds the
  heap. Every read is at a position below the length of the list whenever the functions
  are entered as \<open>heappush\<close> and \<open>heappop\<close> enter them.
\<close>

function siftdown_loop :: "'a::linorder list \<Rightarrow> 'a \<Rightarrow> nat \<Rightarrow> nat \<Rightarrow> 'a list" where
  "siftdown_loop heap newitem startpos pos =
     (if pos > startpos then
        (let parentpos = (pos - 1) div 2;
             parent = heap ! parentpos
         in if newitem < parent then siftdown_loop (heap[pos := parent]) newitem startpos parentpos
            else heap[pos := newitem])
      else heap[pos := newitem])"
  by pat_completeness auto
termination
  by (relation "measure (\<lambda>(heap, newitem, startpos, pos). pos)") auto

definition siftdown :: "'a::linorder list \<Rightarrow> nat \<Rightarrow> nat \<Rightarrow> 'a list" where
  "siftdown heap startpos pos = siftdown_loop heap (heap ! pos) startpos pos"

function siftup_loop :: "'a::linorder list \<Rightarrow> nat \<Rightarrow> nat \<Rightarrow> nat \<Rightarrow> 'a list \<times> nat" where
  "siftup_loop heap endpos pos childpos =
     (if childpos < endpos then
        (let rightpos = childpos + 1;
             childpos' = (if rightpos < endpos \<and> \<not> heap ! childpos < heap ! rightpos
                          then rightpos else childpos)
         in siftup_loop (heap[pos := heap ! childpos']) endpos childpos' (2 * childpos' + 1))
      else (heap, pos))"
  by pat_completeness auto
termination
  by (relation "measure (\<lambda>(heap, endpos, pos, childpos). endpos - childpos)")
     (auto simp: Let_def)

definition siftup :: "'a::linorder list \<Rightarrow> nat \<Rightarrow> 'a list" where
  "siftup heap pos =
     (let endpos = length heap;
          startpos = pos;
          newitem = heap ! pos
      in case siftup_loop heap endpos pos (2 * pos + 1) of
           (heap', pos') \<Rightarrow> siftdown (heap'[pos' := newitem]) startpos pos')"

definition heappush :: "'a::linorder list \<Rightarrow> 'a \<Rightarrow> 'a list" where
  "heappush heap item = siftdown (heap @ [item]) 0 (length (heap @ [item]) - 1)"

definition heappop :: "'a::linorder list \<Rightarrow> error + ('a \<times> 'a list)" where
  "heappop heap =
     (if heap = [] then Inl IndexError
      else (let lastelt = last heap; heap' = butlast heap
            in if heap' \<noteq> [] then Inr (heap' ! 0, siftup (heap'[0 := lastelt]) 0)
               else Inr (lastelt, heap')))"

text \<open>
  \<open>heapq.nlargest(1, iterable)\<close> is \<open>max\<close> with a default: the empty list for an empty
  iterable, else the list of the first greatest element.
\<close>

definition nlargest_1 :: "'a::linorder list \<Rightarrow> 'a list" where
  "nlargest_1 iterable =
     (case iterable of
        [] \<Rightarrow> []
      | x # xs \<Rightarrow> [foldl (\<lambda>m y. if m < y then y else m) x xs])"

text \<open>
  The queue holds the pairs \<open>(success, ckpt)\<close>; Python compares the tuples
  lexicographically, the score first and then the name.
\<close>

record TopKLogger =
  max_to_keep :: int
  checkpoint_queue :: "(real \<times> string) list"

definition TopKLogger_init :: "int \<Rightarrow> TopKLogger" where
  "TopKLogger_init k = \<lparr> max_to_keep = k, checkpoint_queue = [] \<rparr>"

definition push :: "TopKLogger \<Rightarrow> string \<Rightarrow> real \<Rightarrow> (error + bool) \<times> TopKLogger" where
  "push self ckpt success =
     (if int (length (checkpoint_queue self)) < max_to_keep self then
        (Inr True, self\<lparr>checkpoint_queue := heappush (checkpoint_queue self) (success, ckpt)\<rparr>)
      else
        (case checkpoint_queue self of
           [] \<Rightarrow> (Inl IndexError, self)
         | (curr_min_success, _) # _ \<Rightarrow>
             if curr_min_success < success then
               (case heappop (checkpoint_queue self) of
                  Inl e \<Rightarrow> (Inl e, self)
                | Inr (_, q) \<Rightarrow>
                    (Inr True, self\<lparr>checkpoint_queue := heappush q (success, ckpt)\<rparr>))
             else (Inr False, self)))"

definition best_ckpt :: "TopKLogger \<Rightarrow> (error + string) \<times> TopKLogger" where
  "best_ckpt self =
     (case nlargest_1 (checkpoint_queue self) of
        [] \<Rightarrow> (Inl IndexError, self)
      | (success, ckpt) # _ \<Rightarrow> (Inr ckpt, self))"

text \<open>
  A caller that pushes a sequence of \<open>(ckpt, success)\<close> pairs and collects what each
  \<open>push\<close> returned.
\<close>

fun push_all :: "TopKLogger \<Rightarrow> (string \<times> real) list \<Rightarrow> (error + bool) list \<times> TopKLogger" where
  "push_all self [] = ([], self)"
| "push_all self ((ckpt, success) # xs) =
     (case push self ckpt success of
        (r, self') \<Rightarrow> (case push_all self' xs of (rs, self'') \<Rightarrow> (r # rs, self'')))"


section \<open>BaseMujocoEnv: get\_cost and get\_done\<close>

text \<open>
  The fields of the environment that \<open>get_cost\<close> and \<open>get_done\<close> read or write.
  \<open>shape_reward\<close> is the entry of \<open>env_cfg\<close> of that name, \<open>None\<close> when the key is
  absent (\<open>env_cfg.get('shape_reward', False)\<close> is then \<open>False\<close>). \<open>failure_mode\<close> is
  \<open>None\<close> or a string.
\<close>

record BaseMujocoEnv =
  reward :: real
  penalty :: real
  doneType :: string
  costType :: string
  return_type :: string
  shape_reward :: "bool option"
  failure_mode :: "string option"

text \<open>
  The margins \<open>l_x\<close> and \<open>g_x\<close> are one-dimensional numpy arrays over the batch, which
  \<open>get_cost\<close> changes in place and of which \<open>cost\<close> can be an alias. The arrays therefore
  live in a store: an address is a position in the list of all arrays, and a new array
  is put at the end. \<open>cost\<close> is an array or the Python float \<open>0.\<close>.
\<close>

type_synonym heap = "real list list"

datatype pyval = PyFloat real | NdArray nat

definition alloc :: "heap \<Rightarrow> real list \<Rightarrow> nat \<times> heap" where
  "alloc h a = (length h, h @ [a])"

text \<open>
  An elementwise binary operation with numpy's broadcasting of one-dimensional arrays:
  equal lengths pair up, an array of length 1 is stretched, anything else raises.
\<close>

definition np_binop :: "(real \<Rightarrow> real \<Rightarrow> real) \<Rightarrow> real list \<Rightarrow> real list \<Rightarrow> error + real list" where
  "np_binop f xs ys =
     (if length xs = length ys then Inr (map2 f xs ys)
      else if length xs = 1 then Inr (map (f (hd xs)) ys)
      else if length ys = 1 then Inr (map (\<lambda>x. f x (hd ys)) xs)
      else Inl (ValueError ''operands could not be broadcast together''))"

text \<open>\<open>'reward' in self.return_type\<close>: the substring test on strings.\<close>

definition reward_mode :: "BaseMujocoEnv \<Rightarrow> bool" where
  "reward_mode self \<longleftrightarrow> sublist ''reward'' (return_type self)"

text \<open>Lines 34 to 46 of \<open>get_cost\<close>: the cost before any shaping.\<close>

definition base_cost :: "BaseMujocoEnv \<Rightarrow> heap \<Rightarrow> nat \<Rightarrow> nat \<Rightarrow> error + (pyval \<times> heap)" where
  "base_cost self h l_x g_x =
     (if costType self = ''dense_ell'' then Inr (NdArray l_x, h)
      else if costType self = ''dense'' then
        (case np_binop (+) (h ! l_x) (h ! g_x) of
           Inl e \<Rightarrow> Inl e
         | Inr a \<Rightarrow> (case alloc h a of (c, h') \<Rightarrow> Inr (NdArray c, h')))
      else if costType self = ''sparse'' then Inr (PyFloat 0, h)
      else if costType self = ''max_ell_g'' then
        (if reward_mode self then
           (case np_binop min (h ! l_x) (h ! g_x) of
              Inl e \<Rightarrow> Inl e
            | Inr a \<Rightarrow> (case alloc h a of (c, h') \<Rightarrow> Inr (NdArray c, h')))
         else
           (case np_binop max (h ! l_x) (h ! g_x) of
              Inl e \<Rightarrow> Inl e
            | Inr a \<Rightarrow> (case alloc h a of (c, h') \<Rightarrow> Inr (NdArray c, h'))))
      else Inl (ValueError ''invalid cost type!''))"

text \<open>
  \<open>x[msk] = v\<close> with a boolean mask \<open>msk\<close>: a float has no item assignment, and a mask whose
  length differs from the array's raises \<open>IndexError\<close>.
\<close>

definition assign_masked :: "pyval \<Rightarrow> bool list \<Rightarrow> real \<Rightarrow> heap \<Rightarrow> error + heap" where
  "assign_masked x msk v h =
     (case x of
        PyFloat _ \<Rightarrow> Inl TypeError
      | NdArray r \<Rightarrow>
          if length msk \<noteq> length (h ! r) then Inl IndexError
          else Inr (h[r := map2 (\<lambda>b y. if b then v else y) msk (h ! r)]))"

text \<open>
  \<open>get_cost\<close>: the result is the raised error or the triple \<open>(cost, l_x, g_x)\<close>, together
  with the store as the call leaves it.
\<close>

definition get_cost ::
  "BaseMujocoEnv \<Rightarrow> heap \<Rightarrow> nat \<Rightarrow> nat \<Rightarrow> bool list \<Rightarrow> bool list
     \<Rightarrow> (error + (pyval \<times> nat \<times> nat)) \<times> heap" where
  "get_cost self h l_x g_x success fail =
     (case base_cost self h l_x g_x of
        Inl e \<Rightarrow> (Inl e, h)
      | Inr (cost, h1) \<Rightarrow>
          if (case shape_reward self of None \<Rightarrow> False | Some b \<Rightarrow> b) then
            (case
               (if reward_mode self then
                  run_steps
                    [assign_masked cost success (- 1 * reward self),
                     assign_masked cost fail (- 1 * penalty self),
                     assign_masked (NdArray l_x) success (- 1 * reward self),
                     assign_masked (NdArray g_x) fail (- 1 * penalty self)] h1
                else
                  run_steps
                    [assign_masked cost success (reward self),
                     assign_masked cost fail (penalty self),
                     assign_masked (NdArray l_x) success (reward self),
                     assign_masked (NdArray g_x) fail (penalty self)] h1) of
               (Some e, h2) \<Rightarrow> (Inl e, h2)
             | (None, h2) \<Rightarrow> (Inr (cost, l_x, g_x), h2))
          else (Inr (cost, l_x, g_x), h1))"

text \<open>
  \<open>get_done\<close> for one episode step, with scalar flags. \<open>check_within_env\<close> and
  \<open>check_real_failure\<close> are the methods of the concrete environment, taken as
  parameters; they do not touch \<open>failure_mode\<close>. The result is the raised error or
  \<open>done\<close>, together with the environment as the call leaves it.
\<close>

text \<open>
  The \<open>if\<close>/\<open>elif\<close> on \<open>failure_mode\<close> that the branches \<open>all\<close> (lines 74 to 77) and \<open>real\<close>
  (lines 81 to 84) share; \<open>outside\<close> is what \<open>self.check_within_env(state)\<close> answers.
\<close>

definition update_failure_mode :: "BaseMujocoEnv \<Rightarrow> bool \<Rightarrow> bool \<Rightarrow> BaseMujocoEnv" where
  "update_failure_mode self outside success =
     (if failure_mode self = None \<and> outside then self\<lparr>failure_mode := Some ''out_of_env''\<rparr>
      else if success then self\<lparr>failure_mode := Some ''success''\<rparr>
      else self)"

definition get_done ::
  "BaseMujocoEnv \<Rightarrow> ('st \<Rightarrow> bool) \<Rightarrow> (unit \<Rightarrow> bool) \<Rightarrow> 'st \<Rightarrow> bool \<Rightarrow> bool
     \<Rightarrow> (error + bool) \<times> BaseMujocoEnv" where
  "get_done self check_within_env check_real_failure state success fail =
     (if doneType self = ''toEnd'' then (Inr (check_within_env state), self)
      else if doneType self = ''fail'' then (Inr fail, self)
      else if doneType self = ''TF'' then (Inr (fail \<or> success), self)
      else if doneType self = ''all'' then
        (Inr ((fail \<or> success) \<or> check_within_env state),
         update_failure_mode self (check_within_env state) success)
      else if doneType self = ''real'' then
        (let real_fail = check_real_failure ()
         in (Inr ((real_fail \<or> success) \<or> check_within_env state),
             update_failure_mode self (check_within_env state) success))
      else (Inl (ValueError ''invalid done type!''), self))"

text \<open>
  One call of an episode: the state and the flags passed, and what the environment's
  two checks answer at that step. \<open>get_done_calls\<close> runs the calls in order and lists
  \<open>failure_mode\<close> as each call leaves it.
\<close>

type_synonym 'st done_call = "'st \<times> bool \<times> bool \<times> ('st \<Rightarrow> bool) \<times> (unit \<Rightarrow> bool)"

fun get_done_calls :: "BaseMujocoEnv \<Rightarrow> 'st done_call list \<Rightarrow> string option list" where
  "get_done_calls self [] = []"
| "get_done_calls self ((state, success, fail, cwe, crf) # cs) =
     (case get_done self cwe crf state success fail of
        (_, self') \<Rightarrow> failure_mode self' # get_done_calls self' cs)"



section \<open>Specification-side definitions\<close>

text \<open>
  The value of a cost, read through the store, and the cost formula as the specification
  documents it for the four cost kinds: \<open>target_margin\<close> for \<open>dense_ell\<close>, the
  elementwise sum for \<open>dense\<close>, the number 0 for \<open>sparse\<close>, and for \<open>max_ell_g\<close> the
  elementwise minimum in reward mode and the elementwise maximum in cost mode.
\<close>

datatype cost_value = Scalar real | Array "real list"

definition cost_value :: "heap \<Rightarrow> pyval \<Rightarrow> cost_value" where
  "cost_value h c = (case c of PyFloat v \<Rightarrow> Scalar v | NdArray r \<Rightarrow> Array (h ! r))"

definition documented_cost :: "string \<Rightarrow> bool \<Rightarrow> real list \<Rightarrow> real list \<Rightarrow> cost_value" where
  "documented_cost cost_kind is_reward_mode target_margin safety_margin =
     (if cost_kind = ''dense_ell'' then Array target_margin
      else if cost_kind = ''dense'' then Array (map2 (+) target_margin safety_margin)
      else if cost_kind = ''sparse'' then Scalar 0
      else if is_reward_mode then Array (map2 min target_margin safety_margin)
      else Array (map2 max target_margin safety_margin))"


section \<open>Verification: ReplayBuffer\<close>

lemma py_index_in_range: "0 \<le> i \<Longrightarrow> i < int n \<Longrightarrow> py_index n i = Some (nat i)"
  by (simp add: py_index_def)

lemma setitem_in_range: "0 \<le> i \<Longrightarrow> i < int (length xs) \<Longrightarrow> setitem xs i v = Inr (xs[nat i := v])"
  by (simp add: setitem_def py_index_in_range)

lemma store_inv:
  assumes "buffer_inv s"
  shows "store s obs act rew next_obs done lx gx =
     (None, s\<lparr>obs_buf := (obs_buf s)[nat (ptr s) := obs],
             obs2_buf := (obs2_buf s)[nat (ptr s) := next_obs],
             act_buf := (act_buf s)[nat (ptr s) := act],
             rew_buf := (rew_buf s)[nat (ptr s) := rew],
             done_buf := (done_buf s)[nat (ptr s) := done],
             lx_buf := (lx_buf s)[nat (ptr s) := lx],
             gx_buf := (gx_buf s)[nat (ptr s) := gx],
             ptr := (ptr s + 1) mod max_size s,
             size_buf := min (size_buf s + 1) (max_size s)\<rparr>)"
  using assms
  by (simp add: store_def buffer_inv_def setitem_in_range advance_ptr_def)

lemma store_keeps_inv:
  assumes "buffer_inv s"
  shows "buffer_inv (snd (store s obs act rew next_obs done lx gx))"
  using assms by (simp add: store_inv) (simp add: buffer_inv_def)

lemma mod_distinct_window:
  fixes j n c :: nat
  assumes "j < n" "Suc n \<le> j + c"
  shows "j mod c \<noteq> n mod c"
proof
  assume e: "j mod c = n mod c"
  have "0 < c" using assms by (cases c) auto
  from e have "(n - j) mod c = 0" using assms(1)
    by (metis less_imp_le_nat mod_eq_dvd_iff_nat dvd_imp_mod_0 )
  moreover have "0 < n - j" "n - j < c" using assms by auto
  ultimately show False by simp
qed

lemma store_ring_inv:
  assumes "ring_inv s hist"
  shows "fst (store s obs act rew next_obs done lx gx) = None \<and>
         ring_inv (snd (store s obs act rew next_obs done lx gx))
           (hist @ [(obs, act, rew, next_obs, done, lx, gx)])"
proof -
  let ?t = "(obs, act, rew, next_obs, done, lx, gx)"
  let ?s' = "snd (store s obs act rew next_obs done lx gx)"
  from assms have inv: "buffer_inv s" by (simp add: ring_inv_def)
  define c where "c = nat (max_size s)"
  define n where "n = length hist"
  have c: "0 < c" "max_size s = int c" using inv by (simp_all add: buffer_inv_def c_def)
  have p: "ptr s = int (n mod c)" using assms c by (simp add: ring_inv_def n_def zmod_int)
  have lens: "length (obs_buf s) = c" "length (obs2_buf s) = c" "length (act_buf s) = c"
     "length (rew_buf s) = c" "length (done_buf s) = c" "length (lx_buf s) = c" "length (gx_buf s) = c"
    using inv c by (simp_all add: buffer_inv_def)
  have slot_same: "slot ?s' i = (if i = n mod c then ?t else slot s i)" if "i < c" for i
    using that lens p by (simp add: store_inv[OF inv] slot_def)
  have inv': "buffer_inv ?s'" by (rule store_keeps_inv[OF inv])
  have ms: "max_size ?s' = int c" using c by (simp add: store_inv[OF inv])
  have ptr': "ptr ?s' = int (length (hist @ [?t])) mod max_size ?s'"
    using assms c by (simp add: store_inv[OF inv] ring_inv_def mod_simps add.commute)
  have sz: "size_buf ?s' = min (int (length (hist @ [?t]))) (max_size ?s')"
    using assms c by (simp add: store_inv[OF inv] ring_inv_def n_def) 
  have old: "\<forall>j < n. n \<le> j + c \<longrightarrow> slot s (j mod c) = hist ! j"
    using assms by (simp add: ring_inv_def n_def c_def)
  have new: "slot ?s' (j mod c) = (hist @ [?t]) ! j" if "j < Suc n" "Suc n \<le> j + c" for j
  proof (cases "j = n")
    case True
    then show ?thesis using c by (simp add: slot_same n_def)
  next
    case False
    then have jn: "j < n" using that by simp
    have "j mod c \<noteq> n mod c" using jn that(2) by (intro mod_distinct_window) auto
    moreover have "slot s (j mod c) = hist ! j" using old jn that(2) by simp
    ultimately show ?thesis using c jn by (simp add: slot_same nth_append n_def)
  qed
  show ?thesis
    unfolding ring_inv_def
    using inv' ptr' sz new ms by (simp add: store_inv[OF inv] n_def)
qed

lemma store_all_ring_inv:
  "ring_inv s hist \<Longrightarrow>
     fst (store_all s ts) = None \<and> ring_inv (snd (store_all s ts)) (hist @ ts) \<and>
     max_size (snd (store_all s ts)) = max_size s"
proof (induction ts arbitrary: s hist)
  case Nil
  then show ?case by simp
next
  case (Cons t ts)
  obtain obs act rew next_obs dn lx gx where t: "t = (obs, act, rew, next_obs, dn, lx, gx)"
    by (cases t) auto
  let ?r = "store s obs act rew next_obs dn lx gx"
  from store_ring_inv[OF Cons.prems, of obs act rew next_obs dn lx gx]
  have 1: "fst ?r = None" and 2: "ring_inv (snd ?r) (hist @ [t])" by (simp_all add: t)
  have 3: "max_size (snd ?r) = max_size s"
    using Cons.prems by (simp add: store_inv ring_inv_def)
  obtain s' where s': "?r = (None, s')" using 1 by (cases ?r) auto
  from Cons.IH[of s' "hist @ [t]"] 2 3 show ?case by (simp add: t s')
qed

lemma init_ring_inv:
  "1 \<le> C \<Longrightarrow> \<exists>b0. ReplayBuffer_init C = Inr b0 \<and> ring_inv b0 [] \<and> max_size b0 = C"
  by (simp add: ReplayBuffer_init_def ring_inv_def buffer_inv_def)

lemma ring_inv_full:
  assumes "ring_inv b ts" "length ts = nat (max_size b) + k"
  shows "size_buf b = max_size b \<and> rotate (nat (ptr b)) (slots b) = drop k ts"
proof -
  define c where "c = nat (max_size b)"
  have c: "0 < c" "max_size b = int c" using assms by (simp_all add: ring_inv_def buffer_inv_def c_def)
  have p: "nat (ptr b) = (c + k) mod c" using assms c by (simp add: ring_inv_def nat_mod_distrib flip: c_def)
  have len: "length (slots b) = c" by (simp add: slots_def c_def)
  have "rotate (nat (ptr b)) (slots b) ! i = drop k ts ! i" if "i < c" for i
  proof -
    have "rotate (nat (ptr b)) (slots b) ! i = slots b ! ((k + i) mod c)"
      using that len p by (simp add: nth_rotate mod_simps add.commute)
    also have "\<dots> = slot b ((k + i) mod c)" using c by (simp add: slots_def flip: c_def)
    also have "\<dots> = ts ! (k + i)" using assms that by (simp add: ring_inv_def flip: c_def)
    finally show ?thesis using assms by (simp flip: c_def)
  qed
  then have "rotate (nat (ptr b)) (slots b) = drop k ts"
    using len assms by (intro nth_equalityI) (simp_all flip: c_def)
  moreover have "size_buf b = max_size b" using assms c by (simp add: ring_inv_def)
  ultimately show ?thesis by simp
qed

text \<open>
  C1 (FIFO eviction). A buffer created with capacity \<open>C \<ge> 1\<close> accepts every sequence of
  \<open>C + k\<close> stores without raising; afterwards its fill count is \<open>C\<close>, it has \<open>C\<close> rows, and
  the rows read from the write pointer onwards (wrapping round) are the last \<open>C\<close> stored
  transitions in the order they were stored. The row at the write pointer, the next to
  be overwritten, is thus the oldest one kept.
\<close>

theorem store_fifo_eviction:
  assumes "1 \<le> C" and "length ts = nat C + k"
  shows "\<exists>b0 b. ReplayBuffer_init C = Inr b0 \<and> store_all b0 ts = (None, b) \<and>
           size_buf b = C \<and> length (slots b) = nat C \<and>
           rotate (nat (ptr b)) (slots b) = drop k ts"
proof -
  from init_ring_inv[OF assms(1)] obtain b0 :: "('a, 'b) ReplayBuffer"
    where b0: "ReplayBuffer_init C = Inr b0" "ring_inv b0 []" "max_size b0 = C"
    by blast
  from store_all_ring_inv[OF b0(2), of ts] obtain b where
    b: "store_all b0 ts = (None, b)" "ring_inv b ts" "max_size b = C"
    by (cases "store_all b0 ts") (auto simp: b0(3))
  from ring_inv_full[OF b(2), of k] assms(2) b(3)
  have "size_buf b = C" "rotate (nat (ptr b)) (slots b) = drop k ts" by simp_all
  moreover have "length (slots b) = nat C" using b(3) by (simp add: slots_def)
  ultimately show ?thesis using b0(1) b(1) by blast
qed

theorem store_fifo_eviction_witness:
  "\<exists>b0 b. ReplayBuffer_init 2 = Inr b0 \<and>
     store_all b0 [(1::int, 1::int, 1, 1, 0, 1, 1), (2, 2, 2, 2, 0, 2, 2), (3, 3, 3, 3, 1, 3, 3)]
       = (None, b) \<and>
     size_buf b = 2 \<and> length (slots b) = 2 \<and>
     rotate (nat (ptr b)) (slots b) = [(2, 2, 2, 2, 0, 2, 2), (3, 3, 3, 3, 1, 3, 3)]"
  using store_fifo_eviction [of 2 "[(1::int, 1::int, 1, 1, 0, 1, 1), (2, 2, 2, 2, 0, 2, 2), (3, 3, 3, 3, 1, 3, 3)]" 1]
  by simp

lemma stored_rows:
  assumes "ring_inv b ts" "i < nat (size_buf b)"
  shows "slot b i \<in> set ts"
proof (cases "int (length ts) \<le> max_size b")
  case True
  then have "i < length ts" "i < nat (max_size b)" using assms by (simp_all add: ring_inv_def)
  then have "slot b i = ts ! i" using assms(1) True by (auto simp: ring_inv_def)
  then show ?thesis using \<open>i < length ts\<close> by simp
next
  case False
  define k where "k = length ts - nat (max_size b)"
  have l: "length ts = nat (max_size b) + k" using False by (simp add: k_def)
  from ring_inv_full[OF assms(1) l] have r: "rotate (nat (ptr b)) (slots b) = drop k ts" by simp
  have "i < nat (max_size b)" using assms by (simp add: ring_inv_def)
  then have "slot b i \<in> set (slots b)" by (auto simp: slots_def)
  also have "set (slots b) = set (drop k ts)" using r by (metis set_rotate)
  finally show ?thesis by (meson in_set_dropD)
qed


section \<open>Verification: TopKLogger\<close>

text \<open>
  C6. A \<open>TopKLogger\<close> with \<open>k = 2\<close> is offered the scores 0.1, 0.9, 0.5, 0.95 in that
  order under the identifiers \<open>a\<close>, \<open>b\<close>, \<open>c\<close>, \<open>d\<close>. Every \<open>push\<close> returns \<open>True\<close>, the queue
  then holds exactly the entries with the scores 0.9 and 0.95, and \<open>best_ckpt\<close> returns
  \<open>d\<close>, the identifier pushed with 0.95, leaving the queue as it is.
\<close>

theorem topk_scenario:
  "push_all (TopKLogger_init 2) [(a, 0.1), (b, 0.9), (c, 0.5), (d, 0.95)] =
     ([Inr True, Inr True, Inr True, Inr True],
      \<lparr>max_to_keep = 2, checkpoint_queue = [(0.9, b), (0.95, d)]\<rparr>) \<and>
   best_ckpt \<lparr>max_to_keep = 2, checkpoint_queue = [(0.9, b), (0.95, d)]\<rparr> =
     (Inr d, \<lparr>max_to_keep = 2, checkpoint_queue = [(0.9, b), (0.95, d)]\<rparr>)"
  by (simp add: TopKLogger_init_def push_def heappush_def heappop_def siftdown_def siftup_def
        best_ckpt_def nlargest_1_def less_prod_def Let_def)


section \<open>Verification: get\_cost\<close>

lemma base_cost_formula:
  assumes "costType self \<in> {''dense_ell'', ''dense'', ''sparse'', ''max_ell_g''}"
    and "l_x < length h" and "g_x < length h"
    and "length (h ! l_x) = length (h ! g_x)"
  shows "\<exists>c h'. base_cost self h l_x g_x = Inr (c, h') \<and>
           cost_value h' c =
             documented_cost (costType self) (reward_mode self) (h ! l_x) (h ! g_x) \<and>
           h' ! l_x = h ! l_x \<and> h' ! g_x = h ! g_x"
  using assms
  by (auto simp: base_cost_def np_binop_def alloc_def cost_value_def documented_cost_def nth_append)

text \<open>
  C2. For each of the four cost kinds and both return types, on margins of one batch
  length, the cost that \<open>get_cost\<close> computes before the shaping block is the documented
  formula, the margins are untouched by it, and with \<open>shape_reward\<close> absent or false this
  is the cost that \<open>get_cost\<close> returns.
\<close>

theorem get_cost_formula:
  assumes "costType self \<in> {''dense_ell'', ''dense'', ''sparse'', ''max_ell_g''}"
    and "l_x < length h" and "g_x < length h"
    and "length (h ! l_x) = length (h ! g_x)"
  shows "\<exists>c h'. base_cost self h l_x g_x = Inr (c, h') \<and>
           cost_value h' c =
             documented_cost (costType self) (reward_mode self) (h ! l_x) (h ! g_x) \<and>
           h' ! l_x = h ! l_x \<and> h' ! g_x = h ! g_x \<and>
           get_cost (self\<lparr>shape_reward := None\<rparr>) h l_x g_x success fail = (Inr (c, l_x, g_x), h') \<and>
           get_cost (self\<lparr>shape_reward := Some False\<rparr>) h l_x g_x success fail
             = (Inr (c, l_x, g_x), h')"
proof -
  from base_cost_formula[OF assms] obtain c h' where
    b: "base_cost self h l_x g_x = Inr (c, h')"
      "cost_value h' c = documented_cost (costType self) (reward_mode self) (h ! l_x) (h ! g_x)"
      "h' ! l_x = h ! l_x" "h' ! g_x = h ! g_x" by blast
  have e: "base_cost (self\<lparr>shape_reward := x\<rparr>) h l_x g_x = base_cost self h l_x g_x" for x
    by (simp add: base_cost_def reward_mode_def)
  show ?thesis using b by (simp add: get_cost_def e)
qed

theorem get_cost_formula_witness:
  "\<exists>c h'. base_cost \<lparr>reward = 1, penalty = 2, doneType = ''all'', costType = ''max_ell_g'',
                 return_type = ''reward'', shape_reward = Some True, failure_mode = None\<rparr>
             [[1, -2], [0, 3]] 0 1 = Inr (c, h') \<and>
      cost_value h' c = Array [0, -2]"
  using get_cost_formula [of "\<lparr>reward = 1, penalty = 2, doneType = ''all'', costType = ''max_ell_g'',
                 return_type = ''reward'', shape_reward = Some True, failure_mode = None\<rparr>"
             0 "[[1, -2], [0, 3]]" 1 "[]" "[]"]
  by (simp add: documented_cost_def reward_mode_def) blast

lemma masked_nth:
  "length msk = length ys \<Longrightarrow> i < length ys \<Longrightarrow>
     map2 (\<lambda>b y. if b then v else y) msk ys ! i = (if msk ! i then v else ys ! i)"
  by simp

text \<open>The four masked assignments of the shaping block, on a cost that is an array.\<close>

lemma shaping_steps:
  assumes "c < length h1" "l_x < length h1" "g_x < length h1" "l_x \<noteq> g_x"
    and "length (h1 ! c) = n" "length (h1 ! l_x) = n" "length (h1 ! g_x) = n"
    and "length success = n" "length fail = n" "i < n" "success ! i"
  shows "\<exists>h2. run_steps
            [assign_masked (NdArray c) success r,
             assign_masked (NdArray c) fail p,
             assign_masked (NdArray l_x) success r,
             assign_masked (NdArray g_x) fail p] h1 = (None, h2) \<and>
           h2 ! l_x ! i = r \<and>
           h2 ! c ! i = (if fail ! i \<and> c \<noteq> l_x then p else r)"
  using assms
  by (cases "c = l_x"; cases "c = g_x") (simp_all add: assign_masked_def nth_list_update)

lemma base_cost_array:
  assumes "costType self \<in> {''dense_ell'', ''dense'', ''max_ell_g''}"
    and "l_x < length h" and "g_x < length h"
    and "length (h ! l_x) = n" "length (h ! g_x) = n"
  shows "\<exists>c h1. base_cost self h l_x g_x = Inr (NdArray c, h1) \<and>
           c < length h1 \<and> (c = l_x \<longleftrightarrow> costType self = ''dense_ell'') \<and>
           l_x < length h1 \<and> g_x < length h1 \<and>
           length (h1 ! c) = n \<and> length (h1 ! l_x) = n \<and> length (h1 ! g_x) = n"
  using assms
  by (auto simp: base_cost_def np_binop_def alloc_def nth_append)

text \<open>
  C3, as the code has it. With \<open>shape_reward\<close> set, a cost kind whose cost is an array
  (\<open>dense_ell\<close>, \<open>dense\<close>, \<open>max_ell_g\<close>) and distinct margin arrays of the batch length,
  \<open>get_cost\<close> returns, and at every entry whose success flag is true the returned
  target margin is the bonus (negated in reward mode) whatever the input margins and
  the fail flag are. The returned cost at that entry is the bonus too, unless the
  entry's fail flag is also true and the cost is an array of its own (\<open>dense\<close>,
  \<open>max_ell_g\<close>): the penalty is assigned after the bonus and the cost is then the
  penalty (negated in reward mode).
\<close>

theorem shaped_success:
  assumes "shape_reward self = Some True"
    and "costType self \<in> {''dense_ell'', ''dense'', ''max_ell_g''}"
    and "l_x < length h" and "g_x < length h" and "l_x \<noteq> g_x"
    and "length (h ! l_x) = length success" and "length (h ! g_x) = length success"
    and "length fail = length success"
    and "i < length success" and "success ! i"
  shows "\<exists>c h'. get_cost self h l_x g_x success fail = (Inr (NdArray c, l_x, g_x), h') \<and>
           h' ! l_x ! i = (if reward_mode self then - reward self else reward self) \<and>
           h' ! c ! i =
             (if fail ! i \<and> costType self \<noteq> ''dense_ell''
              then (if reward_mode self then - penalty self else penalty self)
              else (if reward_mode self then - reward self else reward self))"
proof -
  from base_cost_array[OF assms(2,3,4,6,7)] obtain c h1 where
    b: "base_cost self h l_x g_x = Inr (NdArray c, h1)" "c < length h1"
       "c = l_x \<longleftrightarrow> costType self = ''dense_ell''" "l_x < length h1" "g_x < length h1"
       "length (h1 ! c) = length success" "length (h1 ! l_x) = length success"
       "length (h1 ! g_x) = length success"
    by blast
  note st = shaping_steps[OF b(2) b(4) b(5) assms(5) b(6) b(7) b(8) refl assms(8) assms(9) assms(10)]
  show ?thesis
  proof (cases "reward_mode self")
    case True
    from st[of "- reward self" "- penalty self"] obtain h2 where
      "run_steps
            [assign_masked (NdArray c) success (- reward self),
             assign_masked (NdArray c) fail (- penalty self),
             assign_masked (NdArray l_x) success (- reward self),
             assign_masked (NdArray g_x) fail (- penalty self)] h1 = (None, h2)"
      "h2 ! l_x ! i = - reward self"
      "h2 ! c ! i = (if fail ! i \<and> c \<noteq> l_x then - penalty self else - reward self)"
      by blast
    then show ?thesis using True b(1) b(3) assms(1) by (simp add: get_cost_def)
  next
    case False
    from st[of "reward self" "penalty self"] obtain h2 where
      "run_steps
            [assign_masked (NdArray c) success (reward self),
             assign_masked (NdArray c) fail (penalty self),
             assign_masked (NdArray l_x) success (reward self),
             assign_masked (NdArray g_x) fail (penalty self)] h1 = (None, h2)"
      "h2 ! l_x ! i = reward self"
      "h2 ! c ! i = (if fail ! i \<and> c \<noteq> l_x then penalty self else reward self)"
      by blast
    then show ?thesis using False b(1) b(3) assms(1) by (simp add: get_cost_def)
  qed
qed

theorem shaped_success_witness:
  "\<exists>c h'. get_cost \<lparr>reward = 1, penalty = 2, doneType = ''all'', costType = ''dense'',
                 return_type = ''cost'', shape_reward = Some True, failure_mode = None\<rparr>
             [[5, 6], [7, 8]] 0 1 [True, True] [False, True] = (Inr (NdArray c, 0, 1), h') \<and>
           h' ! 0 ! 1 = 1 \<and> h' ! c ! 1 = 2"
  using shaped_success [of "\<lparr>reward = 1, penalty = 2, doneType = ''all'', costType = ''dense'',
                 return_type = ''cost'', shape_reward = Some True, failure_mode = None\<rparr>"
          0 "[[5, 6], [7, 8]]" 1 "[True, True]" "[False, True]" 1]
  by (simp add: reward_mode_def sublist_code)

text \<open>
  The claim C3 as stated fails where success and fail are both true: with cost kind
  \<open>dense\<close> in cost mode, reward 1 and penalty 2, the returned cost of the entry is 2.
\<close>

theorem shaped_success_counterexample:
  "get_cost \<lparr>reward = 1, penalty = 2, doneType = ''all'', costType = ''dense'',
                 return_type = ''cost'', shape_reward = Some True, failure_mode = None\<rparr>
             [[5], [7]] 0 1 [True] [True] = (Inr (NdArray 2, 0, 1), [[1], [2], [2]]) \<and>
   [[1], [2], [2::real]] ! 2 ! 0 \<noteq> reward \<lparr>reward = 1, penalty = 2, doneType = ''all'', costType = ''dense'',
                 return_type = ''cost'', shape_reward = Some True, failure_mode = None\<rparr>"
  by (simp add: get_cost_def base_cost_def np_binop_def alloc_def assign_masked_def reward_mode_def
        sublist_code)

text \<open>
  With cost kind \<open>sparse\<close> the cost is the float \<open>0.\<close>, and the first masked assignment of
  the shaping block raises \<open>TypeError\<close>.
\<close>

lemma sparse_shaping_raises:
  "get_cost \<lparr>reward = 1, penalty = 2, doneType = ''all'', costType = ''sparse'',
                 return_type = ''cost'', shape_reward = Some True, failure_mode = None\<rparr>
             [[5], [7]] 0 1 [True] [False] = (Inl TypeError, [[5], [7]])"
  by (simp add: get_cost_def base_cost_def assign_masked_def reward_mode_def sublist_code)

text \<open>
  C9. An unknown \<open>costType\<close> makes \<open>get_cost\<close> raise \<open>ValueError\<close> (the specification's
  \<open>InvalidConfiguration\<close>) and return no cost, leaving the arrays untouched; an unknown
  \<open>doneType\<close> makes \<open>get_done\<close> raise \<open>ValueError\<close> and return no flag, leaving the
  environment untouched.
\<close>

theorem invalid_kind:
  assumes "costType e1 \<notin> {''dense_ell'', ''dense'', ''sparse'', ''max_ell_g''}"
    and "doneType e2 \<notin> {''toEnd'', ''fail'', ''TF'', ''all'', ''real''}"
  shows "get_cost e1 h l_x g_x success fail = (Inl (ValueError ''invalid cost type!''), h) \<and>
         get_done e2 cwe crf state success' fail' = (Inl (ValueError ''invalid done type!''), e2)"
  using assms by (simp add: get_cost_def base_cost_def get_done_def)

theorem invalid_kind_witness:
  "get_cost \<lparr>reward = 1, penalty = 2, doneType = ''all'', costType = ''Dense'',
                 return_type = ''reward'', shape_reward = Some True, failure_mode = None\<rparr>
      [[1], [2]] 0 1 [True] [False] = (Inl (ValueError ''invalid cost type!''), [[1], [2]]) \<and>
   get_done \<lparr>reward = 1, penalty = 2, doneType = ''never'', costType = ''dense'',
                 return_type = ''reward'', shape_reward = Some True, failure_mode = None\<rparr>
      (\<lambda>s::nat. False) (\<lambda>_. False) 0 True False =
     (Inl (ValueError ''invalid done type!''),
      \<lparr>reward = 1, penalty = 2, doneType = ''never'', costType = ''dense'',
                 return_type = ''reward'', shape_reward = Some True, failure_mode = None\<rparr>)"
  using invalid_kind [of "\<lparr>reward = 1, penalty = 2, doneType = ''all'', costType = ''Dense'',
                 return_type = ''reward'', shape_reward = Some True, failure_mode = None\<rparr>"
       "\<lparr>reward = 1, penalty = 2, doneType = ''never'', costType = ''dense'',
                 return_type = ''reward'', shape_reward = Some True, failure_mode = None\<rparr>"
       "[[1], [2]]" 0 1 "[True]" "[False]" "\<lambda>s::nat. False" "\<lambda>_. False" 0 True False]
  by simp


section \<open>Verification: get\_done\<close>






text \<open>
  Every write of the tag comes with \<open>done = True\<close>. Past the end of an episode, that
  is, after a call that returned \<open>True\<close>, a further call with the success flag replaces
  \<open>out_of_env\<close> by \<open>success\<close>.
\<close>

lemma failure_mode_after_done:
  "get_done_calls \<lparr>reward = 1, penalty = 2, doneType = ''all'', costType = ''dense'',
                 return_type = ''cost'', shape_reward = None, failure_mode = None\<rparr>
     [(0::nat, False, False, \<lambda>s. True, \<lambda>_. False), (1, True, False, \<lambda>s. False, \<lambda>_. False)]
   = [Some ''out_of_env'', Some ''success'']"
  by (simp add: get_done_def update_failure_mode_def)


section \<open>Verification: sampling\<close>

lemma getitems_in_range:
  "\<forall>i \<in> set idxs. 0 \<le> i \<and> i < int (length xs) \<Longrightarrow>
     getitems xs idxs = Inr (map (\<lambda>i. xs ! nat i) idxs)"
  by (induction idxs) (simp_all add: py_index_in_range)

lemma randint_in_range:
  assumes "0 < high"
  shows "\<exists>idxs. randint rng 0 high n = Inr idxs \<and> length idxs = n \<and>
           (\<forall>i \<in> set idxs. 0 \<le> i \<and> i < high)"
  using assms by (auto simp: randint_def)

lemma sample_batch_inv:
  assumes "buffer_inv b" and "1 \<le> size_buf b"
  shows "\<exists>idxs. length idxs = n \<and> (\<forall>i \<in> set idxs. 0 \<le> i \<and> i < size_buf b) \<and>
           sample_batch b rng n =
             (Inr \<lparr> b_obs = map (\<lambda>i. obs_buf b ! nat i) idxs,
                    b_obs2 = map (\<lambda>i. obs2_buf b ! nat i) idxs,
                    b_act = map (\<lambda>i. act_buf b ! nat i) idxs,
                    b_rew = map (\<lambda>i. rew_buf b ! nat i) idxs,
                    b_done = map (\<lambda>i. done_buf b ! nat i) idxs,
                    b_lx = map (\<lambda>i. lx_buf b ! nat i) idxs,
                    b_gx = map (\<lambda>i. gx_buf b ! nat i) idxs \<rparr>, b)"
proof -
  from randint_in_range[of "size_buf b" rng n] assms(2)
  obtain idxs where i: "randint rng 0 (size_buf b) n = Inr idxs" "length idxs = n"
    "\<forall>i \<in> set idxs. 0 \<le> i \<and> i < size_buf b" by auto
  have r: "\<forall>i \<in> set idxs. 0 \<le> i \<and> i < max_size b"
    using i(3) assms(1) by (auto simp: buffer_inv_def)
  have g: "getitems (obs_buf b) idxs = Inr (map (\<lambda>i. obs_buf b ! nat i) idxs)"
    "getitems (obs2_buf b) idxs = Inr (map (\<lambda>i. obs2_buf b ! nat i) idxs)"
    "getitems (act_buf b) idxs = Inr (map (\<lambda>i. act_buf b ! nat i) idxs)"
    "getitems (rew_buf b) idxs = Inr (map (\<lambda>i. rew_buf b ! nat i) idxs)"
    "getitems (done_buf b) idxs = Inr (map (\<lambda>i. done_buf b ! nat i) idxs)"
    "getitems (lx_buf b) idxs = Inr (map (\<lambda>i. lx_buf b ! nat i) idxs)"
    "getitems (gx_buf b) idxs = Inr (map (\<lambda>i. gx_buf b ! nat i) idxs)"
    using r assms(1) by (simp_all add: getitems_in_range buffer_inv_def)
  show ?thesis using i g by (intro exI[of _ idxs]) (simp add: sample_batch_def)
qed

text \<open>
  C7 (membership). For every buffer that satisfies the class invariant and holds at
  least one transition, every generator and every batch size \<open>n\<close>, \<open>sample_batch\<close> returns
  a batch and leaves the buffer as it is; each of the seven fields of the batch has \<open>n\<close>
  entries, and entry \<open>j\<close>, taken across the parallel fields, is row \<open>i\<close> of the buffer for
  one \<open>i\<close> below the fill count. By \<open>stored_rows\<close> the rows below the fill count are
  transitions that were stored.
\<close>

theorem sample_batch_membership:
  assumes "buffer_inv b" and "1 \<le> size_buf b"
  shows "\<exists>batch. sample_batch b rng n = (Inr batch, b) \<and>
           length (b_obs batch) = n \<and> length (b_obs2 batch) = n \<and> length (b_act batch) = n \<and>
           length (b_rew batch) = n \<and> length (b_done batch) = n \<and> length (b_lx batch) = n \<and>
           length (b_gx batch) = n \<and>
           (\<forall>j < n. \<exists>i < nat (size_buf b). batch_entry batch j = slot b i)"
proof -
  from sample_batch_inv[OF assms, of n rng] obtain idxs where
    l: "length idxs = n" and r: "\<forall>i \<in> set idxs. 0 \<le> i \<and> i < size_buf b" and
    s: "sample_batch b rng n =
             (Inr \<lparr> b_obs = map (\<lambda>i. obs_buf b ! nat i) idxs,
                    b_obs2 = map (\<lambda>i. obs2_buf b ! nat i) idxs,
                    b_act = map (\<lambda>i. act_buf b ! nat i) idxs,
                    b_rew = map (\<lambda>i. rew_buf b ! nat i) idxs,
                    b_done = map (\<lambda>i. done_buf b ! nat i) idxs,
                    b_lx = map (\<lambda>i. lx_buf b ! nat i) idxs,
                    b_gx = map (\<lambda>i. gx_buf b ! nat i) idxs \<rparr>, b)" by blast
  have "\<exists>i < nat (size_buf b). batch_entry \<lparr> b_obs = map (\<lambda>i. obs_buf b ! nat i) idxs,
                    b_obs2 = map (\<lambda>i. obs2_buf b ! nat i) idxs,
                    b_act = map (\<lambda>i. act_buf b ! nat i) idxs,
                    b_rew = map (\<lambda>i. rew_buf b ! nat i) idxs,
                    b_done = map (\<lambda>i. done_buf b ! nat i) idxs,
                    b_lx = map (\<lambda>i. lx_buf b ! nat i) idxs,
                    b_gx = map (\<lambda>i. gx_buf b ! nat i) idxs \<rparr> j = slot b i" if "j < n" for j
  proof -
    have "0 \<le> idxs ! j \<and> idxs ! j < size_buf b" using r that l by simp
    then have "nat (idxs ! j) < nat (size_buf b)" by simp
    then show ?thesis using that l
      by (intro exI[of _ "nat (idxs ! j)"]) (simp add: batch_entry_def slot_def)
  qed
  then show ?thesis using s l by simp
qed

theorem sample_batch_membership_witness:
  "buffer_inv \<lparr>obs_buf = [4::int, 5], obs2_buf = [5, 6], act_buf = [1::int, 2],
       rew_buf = [1, 2], done_buf = [0, 1], lx_buf = [3, 4], gx_buf = [7, 8],
       ptr = 0, size_buf = 2, max_size = 2, ptr_start = 0\<rparr> \<and> 1 \<le> size_buf \<lparr>obs_buf = [4::int, 5], obs2_buf = [5, 6], act_buf = [1::int, 2],
       rew_buf = [1, 2], done_buf = [0, 1], lx_buf = [3, 4], gx_buf = [7, 8],
       ptr = 0, size_buf = 2, max_size = 2, ptr_start = 0\<rparr> \<and>
   (\<exists>batch. sample_batch \<lparr>obs_buf = [4::int, 5], obs2_buf = [5, 6], act_buf = [1::int, 2],
       rew_buf = [1, 2], done_buf = [0, 1], lx_buf = [3, 4], gx_buf = [7, 8],
       ptr = 0, size_buf = 2, max_size = 2, ptr_start = 0\<rparr> (\<lambda>k. k) 3 = (Inr batch, \<lparr>obs_buf = [4::int, 5], obs2_buf = [5, 6], act_buf = [1::int, 2],
       rew_buf = [1, 2], done_buf = [0, 1], lx_buf = [3, 4], gx_buf = [7, 8],
       ptr = 0, size_buf = 2, max_size = 2, ptr_start = 0\<rparr>) \<and>
           length (b_obs batch) = 3 \<and> length (b_obs2 batch) = 3 \<and> length (b_act batch) = 3 \<and>
           length (b_rew batch) = 3 \<and> length (b_done batch) = 3 \<and> length (b_lx batch) = 3 \<and>
           length (b_gx batch) = 3 \<and>
           (\<forall>j < 3. \<exists>i < nat (size_buf \<lparr>obs_buf = [4::int, 5], obs2_buf = [5, 6], act_buf = [1::int, 2],
       rew_buf = [1, 2], done_buf = [0, 1], lx_buf = [3, 4], gx_buf = [7, 8],
       ptr = 0, size_buf = 2, max_size = 2, ptr_start = 0\<rparr>). batch_entry batch j = slot \<lparr>obs_buf = [4::int, 5], obs2_buf = [5, 6], act_buf = [1::int, 2],
       rew_buf = [1, 2], done_buf = [0, 1], lx_buf = [3, 4], gx_buf = [7, 8],
       ptr = 0, size_buf = 2, max_size = 2, ptr_start = 0\<rparr> i))"
  using sample_batch_membership [where b = "\<lparr>obs_buf = [4::int, 5], obs2_buf = [5, 6], act_buf = [1::int, 2],
       rew_buf = [1, 2], done_buf = [0, 1], lx_buf = [3, 4], gx_buf = [7, 8],
       ptr = 0, size_buf = 2, max_size = 2, ptr_start = 0\<rparr>" and n = 3 and rng = "\<lambda>k. k"]
  by (simp add: buffer_inv_def)

text \<open>
  C5, as the code has it. Sampling a batch of at least one entry from a buffer whose
  fill count is 0 raises the \<open>ValueError\<close> of \<open>np.random.randint\<close> (the specification's
  \<open>EmptyBufferError\<close>), and \<open>best_ckpt\<close> on a logger with an empty queue raises
  \<open>IndexError\<close> (the specification's \<open>EmptyTrackerError\<close>); the buffer and the logger are
  left as they were.
\<close>

theorem sample_empty_fails:
  assumes "size_buf b = 0" and "0 < n" and "checkpoint_queue t = []"
  shows "sample_batch b rng n = (Inl (ValueError ''low >= high''), b) \<and>
         best_ckpt t = (Inl IndexError, t)"
  using assms by (simp add: sample_batch_def randint_def best_ckpt_def nlargest_1_def)

theorem sample_empty_fails_witness:
  "sample_batch \<lparr>obs_buf = [0::int, 0], obs2_buf = [0, 0], act_buf = [0::int, 0],
       rew_buf = [0, 0], done_buf = [0, 0], lx_buf = [0, 0], gx_buf = [0, 0],
       ptr = 0, size_buf = 0, max_size = 2, ptr_start = 0\<rparr> (\<lambda>k. k) 32 = (Inl (ValueError ''low >= high''), \<lparr>obs_buf = [0::int, 0], obs2_buf = [0, 0], act_buf = [0::int, 0],
       rew_buf = [0, 0], done_buf = [0, 0], lx_buf = [0, 0], gx_buf = [0, 0],
       ptr = 0, size_buf = 0, max_size = 2, ptr_start = 0\<rparr>) \<and>
   best_ckpt (TopKLogger_init 2) = (Inl IndexError, TopKLogger_init 2)"
  using sample_empty_fails [where b = "\<lparr>obs_buf = [0::int, 0], obs2_buf = [0, 0], act_buf = [0::int, 0],
       rew_buf = [0, 0], done_buf = [0, 0], lx_buf = [0, 0], gx_buf = [0, 0],
       ptr = 0, size_buf = 0, max_size = 2, ptr_start = 0\<rparr>" and n = 32 and t = "TopKLogger_init 2" and rng = "\<lambda>k. k"]
  by (simp add: TopKLogger_init_def)

text \<open>
  The claim C5 as stated, for every batch size, fails at the batch size 0: sampling
  from a buffer whose fill count is 0 then returns the empty batch and raises nothing.
\<close>

theorem sample_empty_counterexample:
  "sample_batch \<lparr>obs_buf = [0::int, 0], obs2_buf = [0, 0], act_buf = [0::int, 0],
       rew_buf = [0, 0], done_buf = [0, 0], lx_buf = [0, 0], gx_buf = [0, 0],
       ptr = 0, size_buf = 0, max_size = 2, ptr_start = 0\<rparr> (\<lambda>k. k) 0
     = (Inr \<lparr>b_obs = [], b_obs2 = [], b_act = [], b_rew = [], b_done = [], b_lx = [], b_gx = []\<rparr>,
        \<lparr>obs_buf = [0::int, 0], obs2_buf = [0, 0], act_buf = [0::int, 0],
         rew_buf = [0, 0], done_buf = [0, 0], lx_buf = [0, 0], gx_buf = [0, 0],
         ptr = 0, size_buf = 0, max_size = 2, ptr_start = 0\<rparr>)"
  by (simp add: sample_batch_def randint_def)


section \<open>Verification: ReplayBufferMultimodal\<close>

lemma dict_get_Some: "map_of d k = Some v \<Longrightarrow> dict_get d k = Inr v"
  by (simp add: dict_get_def)

lemma unsqueeze1_shape: "length (unsqueeze1 xs) = length xs \<and> (\<forall>w \<in> set (unsqueeze1 xs). length w = 1)"
  by (auto simp: unsqueeze1_def)

lemma sample_streams_shape:
  assumes "\<forall>k \<in> set ks. \<exists>a1 a2. map_of ob k = Some a1 \<and> map_of ob2 k = Some a2 \<and>
              length a1 = m \<and> length a2 = m"
    and "\<forall>i \<in> set idxs. 0 \<le> i \<and> i < int m"
  shows "\<exists>so so2. sample_streams ob ob2 idxs ks = Inr (so, so2) \<and>
           map fst so = ks \<and> map fst so2 = ks \<and>
           (\<forall>(k, arr) \<in> set so \<union> set so2.
              length arr = length idxs \<and> (\<forall>w \<in> set arr. length w = 1))"
  using assms(1)
proof (induction ks)
  case Nil
  then show ?case by simp
next
  case (Cons k ks)
  from Cons.prems obtain a1 a2 where a: "map_of ob k = Some a1" "map_of ob2 k = Some a2"
    "length a1 = m" "length a2 = m" by auto
  from Cons.IH Cons.prems obtain so so2 where r: "sample_streams ob ob2 idxs ks = Inr (so, so2)"
    "map fst so = ks" "map fst so2 = ks"
    "\<forall>(k, arr) \<in> set so \<union> set so2. length arr = length idxs \<and> (\<forall>w \<in> set arr. length w = 1)"
    by auto
  have g: "getitems a1 idxs = Inr (map (\<lambda>i. a1 ! nat i) idxs)"
    "getitems a2 idxs = Inr (map (\<lambda>i. a2 ! nat i) idxs)"
    using assms(2) a(3,4) by (simp_all add: getitems_in_range)
  show ?case using a r g unsqueeze1_shape
    by (auto simp: dict_get_Some)
qed

lemma inv_mm_streams:
  assumes "buffer_inv_mm b" "k \<in> set (map fst (obs_buf_mm b))"
  shows "\<exists>a1 a2. map_of (obs_buf_mm b) k = Some a1 \<and> map_of (obs2_buf_mm b) k = Some a2 \<and>
              length a1 = nat (max_size_mm b) \<and> length a2 = nat (max_size_mm b)"
proof -
  have k2: "k \<in> set (map fst (obs2_buf_mm b))" using assms by (simp add: buffer_inv_mm_def)
  from assms(2) obtain a1 where a1: "map_of (obs_buf_mm b) k = Some a1"
    by (metis map_of_eq_None_iff not_Some_eq set_map)
  from k2 obtain a2 where a2: "map_of (obs2_buf_mm b) k = Some a2"
    by (metis map_of_eq_None_iff not_Some_eq set_map)
  have "(k, a1) \<in> set (obs_buf_mm b)" "(k, a2) \<in> set (obs2_buf_mm b)"
    using a1 a2 by (simp_all add: map_of_SomeD)
  then have "int (length a1) = max_size_mm b" "int (length a2) = max_size_mm b"
    using assms(1) by (auto simp: buffer_inv_mm_def list_all_iff)
  then show ?thesis using a1 a2 by auto
qed

text \<open>
  C8. For every multimodal buffer that satisfies the class invariant and holds at least
  one transition, every generator and every batch size \<open>n\<close>, \<open>sample_batch\<close> returns a
  batch and leaves the buffer as it is; the observation and the next-observation
  mapping of the batch have exactly the configured streams as keys, and the array of
  each stream has \<open>n\<close> windows (the batch axis) of one row each (the axis that
  \<open>unsqueeze(1)\<close> inserts).
\<close>

theorem sample_mm_shape:
  assumes "buffer_inv_mm b" and "1 \<le> size_mm b"
  shows "\<exists>batch. sample_batch_mm b rng n = (Inr batch, b) \<and>
           map fst (mb_obs batch) = map fst (env_observation_shapes b) \<and>
           map fst (mb_obs2 batch) = map fst (env_observation_shapes b) \<and>
           (\<forall>(k, arr) \<in> set (mb_obs batch) \<union> set (mb_obs2 batch).
              length arr = n \<and> (\<forall>w \<in> set arr. length w = 1))"
proof -
  from randint_in_range[of "size_mm b" rng n] assms(2)
  obtain idxs where i: "randint rng 0 (size_mm b) n = Inr idxs" "length idxs = n"
    "\<forall>i \<in> set idxs. 0 \<le> i \<and> i < size_mm b" by auto
  have r: "\<forall>i \<in> set idxs. 0 \<le> i \<and> i < int (nat (max_size_mm b))"
    using i(3) assms(1) by (auto simp: buffer_inv_mm_def)
  have ks: "\<forall>k \<in> set (map fst (obs_buf_mm b)). \<exists>a1 a2. map_of (obs_buf_mm b) k = Some a1 \<and>
      map_of (obs2_buf_mm b) k = Some a2 \<and> length a1 = nat (max_size_mm b) \<and> length a2 = nat (max_size_mm b)"
    using inv_mm_streams[OF assms(1)] by blast
  from sample_streams_shape[OF ks r] obtain so so2 where
    s: "sample_streams (obs_buf_mm b) (obs2_buf_mm b) idxs (map fst (obs_buf_mm b)) = Inr (so, so2)"
       "map fst so = map fst (obs_buf_mm b)" "map fst so2 = map fst (obs_buf_mm b)"
       "\<forall>(k, arr) \<in> set so \<union> set so2. length arr = length idxs \<and> (\<forall>w \<in> set arr. length w = 1)"
    by blast
  have g: "getitems (act_buf_mm b) idxs = Inr (map (\<lambda>i. act_buf_mm b ! nat i) idxs)"
    "getitems (rew_buf_mm b) idxs = Inr (map (\<lambda>i. rew_buf_mm b ! nat i) idxs)"
    "getitems (done_buf_mm b) idxs = Inr (map (\<lambda>i. done_buf_mm b ! nat i) idxs)"
    "getitems (lx_buf_mm b) idxs = Inr (map (\<lambda>i. lx_buf_mm b ! nat i) idxs)"
    "getitems (gx_buf_mm b) idxs = Inr (map (\<lambda>i. gx_buf_mm b ! nat i) idxs)"
    using r assms(1) by (simp_all add: getitems_in_range buffer_inv_mm_def)
  have keys: "map fst (obs_buf_mm b) = map fst (env_observation_shapes b)"
    using assms(1) by (simp add: buffer_inv_mm_def)
  show ?thesis using i(1,2) s g keys by (simp add: sample_batch_mm_def)
qed

theorem sample_mm_shape_witness:
  "buffer_inv_mm \<lparr>env_observation_shapes = [(''rgb'', [2, 2, 3]), (''state'', [4])],
       obs_buf_mm = [(''rgb'', [1::int, 2]), (''state'', [3, 4])],
       obs2_buf_mm = [(''rgb'', [2, 0]), (''state'', [4, 0])],
       act_buf_mm = [1::int, 2], rew_buf_mm = [1, 2], done_buf_mm = [0, 1],
       lx_buf_mm = [3, 4], gx_buf_mm = [7, 8],
       ptr_mm = 1, size_mm = 2, max_size_mm = 2, ptr_start_mm = 0\<rparr> \<and> 1 \<le> size_mm \<lparr>env_observation_shapes = [(''rgb'', [2, 2, 3]), (''state'', [4])],
       obs_buf_mm = [(''rgb'', [1::int, 2]), (''state'', [3, 4])],
       obs2_buf_mm = [(''rgb'', [2, 0]), (''state'', [4, 0])],
       act_buf_mm = [1::int, 2], rew_buf_mm = [1, 2], done_buf_mm = [0, 1],
       lx_buf_mm = [3, 4], gx_buf_mm = [7, 8],
       ptr_mm = 1, size_mm = 2, max_size_mm = 2, ptr_start_mm = 0\<rparr> \<and>
   (\<exists>batch. sample_batch_mm \<lparr>env_observation_shapes = [(''rgb'', [2, 2, 3]), (''state'', [4])],
       obs_buf_mm = [(''rgb'', [1::int, 2]), (''state'', [3, 4])],
       obs2_buf_mm = [(''rgb'', [2, 0]), (''state'', [4, 0])],
       act_buf_mm = [1::int, 2], rew_buf_mm = [1, 2], done_buf_mm = [0, 1],
       lx_buf_mm = [3, 4], gx_buf_mm = [7, 8],
       ptr_mm = 1, size_mm = 2, max_size_mm = 2, ptr_start_mm = 0\<rparr> (\<lambda>k. k) 3 = (Inr batch, \<lparr>env_observation_shapes = [(''rgb'', [2, 2, 3]), (''state'', [4])],
       obs_buf_mm = [(''rgb'', [1::int, 2]), (''state'', [3, 4])],
       obs2_buf_mm = [(''rgb'', [2, 0]), (''state'', [4, 0])],
       act_buf_mm = [1::int, 2], rew_buf_mm = [1, 2], done_buf_mm = [0, 1],
       lx_buf_mm = [3, 4], gx_buf_mm = [7, 8],
       ptr_mm = 1, size_mm = 2, max_size_mm = 2, ptr_start_mm = 0\<rparr>) \<and>
           map fst (mb_obs batch) = map fst (env_observation_shapes \<lparr>env_observation_shapes = [(''rgb'', [2, 2, 3]), (''state'', [4])],
       obs_buf_mm = [(''rgb'', [1::int, 2]), (''state'', [3, 4])],
       obs2_buf_mm = [(''rgb'', [2, 0]), (''state'', [4, 0])],
       act_buf_mm = [1::int, 2], rew_buf_mm = [1, 2], done_buf_mm = [0, 1],
       lx_buf_mm = [3, 4], gx_buf_mm = [7, 8],
       ptr_mm = 1, size_mm = 2, max_size_mm = 2, ptr_start_mm = 0\<rparr>) \<and>
           map fst (mb_obs2 batch) = map fst (env_observation_shapes \<lparr>env_observation_shapes = [(''rgb'', [2, 2, 3]), (''state'', [4])],
       obs_buf_mm = [(''rgb'', [1::int, 2]), (''state'', [3, 4])],
       obs2_buf_mm = [(''rgb'', [2, 0]), (''state'', [4, 0])],
       act_buf_mm = [1::int, 2], rew_buf_mm = [1, 2], done_buf_mm = [0, 1],
       lx_buf_mm = [3, 4], gx_buf_mm = [7, 8],
       ptr_mm = 1, size_mm = 2, max_size_mm = 2, ptr_start_mm = 0\<rparr>) \<and>
           (\<forall>(k, arr) \<in> set (mb_obs batch) \<union> set (mb_obs2 batch).
              length arr = 3 \<and> (\<forall>w \<in> set arr. length w = 1)))"
  using sample_mm_shape [where b = "\<lparr>env_observation_shapes = [(''rgb'', [2, 2, 3]), (''state'', [4])],
       obs_buf_mm = [(''rgb'', [1::int, 2]), (''state'', [3, 4])],
       obs2_buf_mm = [(''rgb'', [2, 0]), (''state'', [4, 0])],
       act_buf_mm = [1::int, 2], rew_buf_mm = [1, 2], done_buf_mm = [0, 1],
       lx_buf_mm = [3, 4], gx_buf_mm = [7, 8],
       ptr_mm = 1, size_mm = 2, max_size_mm = 2, ptr_start_mm = 0\<rparr>" and n = 3 and rng = "\<lambda>k. k"]
  by (simp add: buffer_inv_mm_def)

lemma run_steps_append:
  "run_steps (fs @ gs) s =
     (case run_steps fs s of (None, s') \<Rightarrow> run_steps gs s' | (Some e, s') \<Rightarrow> (Some e, s'))"
  by (induction fs arbitrary: s) (simp_all split: sum.splits)

lemma run_steps_preserves:
  assumes "\<forall>f \<in> set fs. \<forall>s s'. f s = Inr s' \<longrightarrow> P s \<longrightarrow> P s'" and "P s"
  shows "P (snd (run_steps fs s))"
  using assms
  by (induction fs arbitrary: s) (auto split: sum.splits)

lemma map_sum_id_Inr: "map_sum id g x = Inr y \<longleftrightarrow> (\<exists>z. x = Inr z \<and> y = g z)"
  by (cases x) auto

lemma set_row_other:
  "set_row d k i v = Inr d' \<Longrightarrow> k' \<noteq> k \<Longrightarrow> map_of d' k' = map_of d k'"
  by (induction d arbitrary: d') (auto split: if_splits sum.splits)

lemma set_row_keys:
  "set_row d k i v = Inr d' \<Longrightarrow> map fst d' = map fst d"
  by (induction d arbitrary: d') (auto split: if_splits sum.splits)

lemma set_row_written:
  "map_of d k = Some arr \<Longrightarrow> 0 \<le> i \<Longrightarrow> i < int (length arr) \<Longrightarrow>
     \<exists>d'. set_row d k i v = Inr d' \<and> map_of d' k = Some (arr[nat i := v])"
proof (induction d)
  case Nil
  then show ?case by simp
next
  case (Cons p d)
  obtain k' a where p: "p = (k', a)" by (cases p)
  show ?case
  proof (cases "k' = k")
    case True
    then show ?thesis using Cons.prems p by (simp add: setitem_in_range)
  next
    case False
    then show ?thesis using Cons p by auto
  qed
qed

text \<open>The statements of \<open>store\<close> leave every stream that is not a key of \<open>obs\<close> as it was.\<close>

lemma store_mm_untouched:
  assumes "k \<notin> set (map fst obs)"
  shows "map_of (obs_buf_mm (snd (store_mm b obs act rew next_obs dn lx gx))) k = map_of (obs_buf_mm b) k \<and>
         map_of (obs2_buf_mm (snd (store_mm b obs act rew next_obs dn lx gx))) k = map_of (obs2_buf_mm b) k"
  unfolding store_mm_def
proof (rule run_steps_preserves[where P = "\<lambda>s. map_of (obs_buf_mm s) k = map_of (obs_buf_mm b) k \<and>
         map_of (obs2_buf_mm s) k = map_of (obs2_buf_mm b) k"], intro ballI allI impI)
  fix f s s'
  assume f: "f \<in> set (concat (map (\<lambda>obs_type. [write_obs obs obs_type, write_obs2 next_obs obs_type]) (map fst obs)) @
              [\<lambda>s. map_sum id (\<lambda>v. s\<lparr>act_buf_mm := v\<rparr>) (setitem (act_buf_mm s) (ptr_mm s) act),
               \<lambda>s. map_sum id (\<lambda>v. s\<lparr>rew_buf_mm := v\<rparr>) (setitem (rew_buf_mm s) (ptr_mm s) rew),
               \<lambda>s. map_sum id (\<lambda>v. s\<lparr>done_buf_mm := v\<rparr>) (setitem (done_buf_mm s) (ptr_mm s) dn),
               \<lambda>s. map_sum id (\<lambda>v. s\<lparr>lx_buf_mm := v\<rparr>) (setitem (lx_buf_mm s) (ptr_mm s) lx),
               \<lambda>s. map_sum id (\<lambda>v. s\<lparr>gx_buf_mm := v\<rparr>) (setitem (gx_buf_mm s) (ptr_mm s) gx),
               advance_ptr_mm, \<lambda>s. Inr (s\<lparr>size_mm := min (size_mm s + 1) (max_size_mm s)\<rparr>)])"
    and r: "f s = Inr s'"
    and P: "map_of (obs_buf_mm s) k = map_of (obs_buf_mm b) k \<and>
         map_of (obs2_buf_mm s) k = map_of (obs2_buf_mm b) k"
  from f consider
      (w1) k' where "k' \<in> set (map fst obs)" "f = write_obs obs k'"
    | (w2) k' where "k' \<in> set (map fst obs)" "f = write_obs2 next_obs k'"
    | (rest) "obs_buf_mm s' = obs_buf_mm s" "obs2_buf_mm s' = obs2_buf_mm s"
    using r by (auto simp: advance_ptr_mm_def map_sum_id_Inr split: if_splits)
  then show "map_of (obs_buf_mm s') k = map_of (obs_buf_mm b) k \<and>
         map_of (obs2_buf_mm s') k = map_of (obs2_buf_mm b) k"
  proof cases
    case w1
    then have "k \<noteq> k'" using assms by auto
    then show ?thesis using r P w1(2)
      by (auto simp: write_obs_def map_sum_id_Inr split: sum.splits dest: set_row_other)
  next
    case w2
    then have "k \<noteq> k'" using assms by auto
    then show ?thesis using r P w2(2)
      by (auto simp: write_obs2_def map_sum_id_Inr split: sum.splits dest: set_row_other)
  next
    case rest
    then show ?thesis using P by simp
  qed
qed simp

lemma write_obs_ok:
  assumes "map_of obs k = Some v" "map_of (obs_buf_mm s) k = Some a1"
    "0 \<le> ptr_mm s" "ptr_mm s < int (length a1)"
  shows "\<exists>d. write_obs obs k s = Inr (s\<lparr>obs_buf_mm := d\<rparr>) \<and> map fst d = map fst (obs_buf_mm s) \<and>
           map_of d = (map_of (obs_buf_mm s))(k \<mapsto> a1[nat (ptr_mm s) := v])"
proof -
  from set_row_written[OF assms(2,3,4), of v] obtain d where
    d: "set_row (obs_buf_mm s) k (ptr_mm s) v = Inr d" "map_of d k = Some (a1[nat (ptr_mm s) := v])"
    by blast
  have "map_of d = (map_of (obs_buf_mm s))(k \<mapsto> a1[nat (ptr_mm s) := v])"
    using d set_row_other[OF d(1)] by (intro ext) auto
  then show ?thesis using d(1) assms(1) set_row_keys[OF d(1)]
    by (intro exI[of _ d]) (simp add: write_obs_def dict_get_Some)
qed

lemma write_obs2_ok:
  assumes "map_of next_obs k = Some v" "map_of (obs2_buf_mm s) k = Some a2"
    "0 \<le> ptr_mm s" "ptr_mm s < int (length a2)"
  shows "\<exists>d. write_obs2 next_obs k s = Inr (s\<lparr>obs2_buf_mm := d\<rparr>) \<and> map fst d = map fst (obs2_buf_mm s) \<and>
           map_of d = (map_of (obs2_buf_mm s))(k \<mapsto> a2[nat (ptr_mm s) := v])"
proof -
  from set_row_written[OF assms(2,3,4), of v] obtain d where
    d: "set_row (obs2_buf_mm s) k (ptr_mm s) v = Inr d" "map_of d k = Some (a2[nat (ptr_mm s) := v])"
    by blast
  have "map_of d = (map_of (obs2_buf_mm s))(k \<mapsto> a2[nat (ptr_mm s) := v])"
    using d set_row_other[OF d(1)] by (intro ext) auto
  then show ?thesis using d(1) assms(1) set_row_keys[OF d(1)]
    by (intro exI[of _ d]) (simp add: write_obs2_def dict_get_Some)
qed

lemma store_loop:
  assumes "0 \<le> ptr_mm s"
    and "\<forall>k \<in> set ks. \<exists>v v2 a1 a2. map_of obs k = Some v \<and> map_of next_obs k = Some v2 \<and>
           map_of (obs_buf_mm s) k = Some a1 \<and> map_of (obs2_buf_mm s) k = Some a2 \<and>
           ptr_mm s < int (length a1) \<and> ptr_mm s < int (length a2)"
  shows "\<exists>d1 d2. run_steps (concat (map (\<lambda>obs_type. [write_obs obs obs_type,
                      write_obs2 next_obs obs_type]) ks)) s
             = (None, s\<lparr>obs_buf_mm := d1, obs2_buf_mm := d2\<rparr>) \<and>
           map fst d1 = map fst (obs_buf_mm s) \<and> map fst d2 = map fst (obs2_buf_mm s) \<and>
           (\<forall>k \<in> set ks. \<exists>a1 a2. map_of (obs_buf_mm s) k = Some a1 \<and>
               map_of (obs2_buf_mm s) k = Some a2 \<and>
               map_of d1 k = Some (a1[nat (ptr_mm s) := the (map_of obs k)]) \<and>
               map_of d2 k = Some (a2[nat (ptr_mm s) := the (map_of next_obs k)])) \<and>
           (\<forall>k. k \<notin> set ks \<longrightarrow> map_of d1 k = map_of (obs_buf_mm s) k \<and>
               map_of d2 k = map_of (obs2_buf_mm s) k)"
  using assms
proof (induction ks arbitrary: s)
  case Nil
  show ?case by (rule exI[of _ "obs_buf_mm s"], rule exI[of _ "obs2_buf_mm s"]) simp
next
  case (Cons k ks)
  from Cons.prems(2) obtain v v2 a1 a2 where k: "map_of obs k = Some v" "map_of next_obs k = Some v2"
    "map_of (obs_buf_mm s) k = Some a1" "map_of (obs2_buf_mm s) k = Some a2"
    "ptr_mm s < int (length a1)" "ptr_mm s < int (length a2)" by auto
  from write_obs_ok[OF k(1,3) Cons.prems(1) k(5)] obtain da where
    da: "write_obs obs k s = Inr (s\<lparr>obs_buf_mm := da\<rparr>)" "map fst da = map fst (obs_buf_mm s)"
        "map_of da = (map_of (obs_buf_mm s))(k \<mapsto> a1[nat (ptr_mm s) := v])" by blast
  let ?s0 = "s\<lparr>obs_buf_mm := da\<rparr>"
  have "\<exists>d. write_obs2 next_obs k ?s0 = Inr (?s0\<lparr>obs2_buf_mm := d\<rparr>) \<and>
           map fst d = map fst (obs2_buf_mm ?s0) \<and>
           map_of d = (map_of (obs2_buf_mm ?s0))(k \<mapsto> a2[nat (ptr_mm ?s0) := v2])"
    using k(2,4,6) Cons.prems(1) by (intro write_obs2_ok) simp_all
  then obtain db where
    db: "write_obs2 next_obs k ?s0 = Inr (s\<lparr>obs_buf_mm := da, obs2_buf_mm := db\<rparr>)"
        "map fst db = map fst (obs2_buf_mm s)"
        "map_of db = (map_of (obs2_buf_mm s))(k \<mapsto> a2[nat (ptr_mm s) := v2])" by auto
  let ?s1 = "s\<lparr>obs_buf_mm := da, obs2_buf_mm := db\<rparr>"
  have pre: "\<forall>k' \<in> set ks. \<exists>v v2 a1 a2. map_of obs k' = Some v \<and> map_of next_obs k' = Some v2 \<and>
           map_of (obs_buf_mm ?s1) k' = Some a1 \<and> map_of (obs2_buf_mm ?s1) k' = Some a2 \<and>
           ptr_mm ?s1 < int (length a1) \<and> ptr_mm ?s1 < int (length a2)"
    using Cons.prems(2) k da(3) db(3) by auto
  have p1: "0 \<le> ptr_mm ?s1" using Cons.prems(1) by simp
  from Cons.IH[OF p1 pre] obtain d1 d2 where
    r: "run_steps (concat (map (\<lambda>obs_type. [write_obs obs obs_type,
                      write_obs2 next_obs obs_type]) ks)) ?s1
             = (None, ?s1\<lparr>obs_buf_mm := d1, obs2_buf_mm := d2\<rparr>)"
       "map fst d1 = map fst da" "map fst d2 = map fst db"
       "\<forall>k' \<in> set ks. \<exists>a1 a2. map_of da k' = Some a1 \<and> map_of db k' = Some a2 \<and>
               map_of d1 k' = Some (a1[nat (ptr_mm s) := the (map_of obs k')]) \<and>
               map_of d2 k' = Some (a2[nat (ptr_mm s) := the (map_of next_obs k')])"
       "\<forall>k'. k' \<notin> set ks \<longrightarrow> map_of d1 k' = map_of da k' \<and> map_of d2 k' = map_of db k'"
    by auto
  have run: "run_steps (concat (map (\<lambda>obs_type. [write_obs obs obs_type,
                      write_obs2 next_obs obs_type]) (k # ks))) s
             = (None, s\<lparr>obs_buf_mm := d1, obs2_buf_mm := d2\<rparr>)"
    using da(1) db(1) r(1) by simp
  have fin: "\<exists>a1 a2. map_of (obs_buf_mm s) k' = Some a1 \<and>
               map_of (obs2_buf_mm s) k' = Some a2 \<and>
               map_of d1 k' = Some (a1[nat (ptr_mm s) := the (map_of obs k')]) \<and>
               map_of d2 k' = Some (a2[nat (ptr_mm s) := the (map_of next_obs k')])"
    if "k' \<in> set (k # ks)" for k'
  proof (cases "k' \<in> set ks")
    case True
    with r(4) obtain b1 b2 where b: "map_of da k' = Some b1" "map_of db k' = Some b2"
       "map_of d1 k' = Some (b1[nat (ptr_mm s) := the (map_of obs k')])"
       "map_of d2 k' = Some (b2[nat (ptr_mm s) := the (map_of next_obs k')])" by blast
    show ?thesis
    proof (cases "k' = k")
      case True
      have "b1 = a1[nat (ptr_mm s) := v]" "b2 = a2[nat (ptr_mm s) := v2]"
        using b(1,2) da(3) db(3) True by simp_all
      then show ?thesis using b(3,4) k True by simp
    next
      case False
      then show ?thesis using b da(3) db(3) by simp
    qed
  next
    case False
    then have e: "k' = k" using that by simp
    have "map_of d1 k = map_of da k \<and> map_of d2 k = map_of db k"
      using r(5) False e by simp
    then show ?thesis using e k da(3) db(3) by simp
  qed
  have frame: "\<forall>k'. k' \<notin> set (k # ks) \<longrightarrow> map_of d1 k' = map_of (obs_buf_mm s) k' \<and>
               map_of d2 k' = map_of (obs2_buf_mm s) k'"
    using r(5) da(3) db(3) by simp
  show ?case
    apply (rule exI[of _ d1])
    apply (rule exI[of _ d2])
    using run r(2,3) da(2) db(2) fin frame
    by simp
qed

lemma keys_map_of: "k \<in> set (map fst d) \<Longrightarrow> \<exists>v. map_of d k = Some v"
  by (metis map_of_eq_None_iff not_Some_eq set_map)

text \<open>
  C10 (frame). For a multimodal buffer that satisfies the class invariant, an
  observation whose keys are configured streams and a next observation that has those
  keys, \<open>store\<close> does not raise; every stream that is not a key of the observation keeps
  its whole array in both observation dictionaries (so also the row at the write
  position); every stream that is a key gets the passed row at the write position; and
  the action, reward, done and margin arrays hold the passed values at the write
  position. By \<open>store_mm_untouched\<close> the streams absent from the observation are left
  unchanged also when \<open>store\<close> raises.
\<close>

theorem store_mm_writes:
  assumes "buffer_inv_mm b"
    and "set (map fst obs) \<subseteq> set (map fst (env_observation_shapes b))"
    and "set (map fst obs) \<subseteq> set (map fst next_obs)"
  shows "\<exists>b'. store_mm b obs act rew next_obs dn lx gx = (None, b') \<and>
           (\<forall>k. k \<notin> set (map fst obs) \<longrightarrow>
                map_of (obs_buf_mm b') k = map_of (obs_buf_mm b) k \<and>
                map_of (obs2_buf_mm b') k = map_of (obs2_buf_mm b) k) \<and>
           (\<forall>k \<in> set (map fst obs). \<exists>a1 a2.
                map_of (obs_buf_mm b) k = Some a1 \<and> map_of (obs2_buf_mm b) k = Some a2 \<and>
                map_of (obs_buf_mm b') k = Some (a1[nat (ptr_mm b) := the (map_of obs k)]) \<and>
                map_of (obs2_buf_mm b') k = Some (a2[nat (ptr_mm b) := the (map_of next_obs k)])) \<and>
           act_buf_mm b' ! nat (ptr_mm b) = act \<and> rew_buf_mm b' ! nat (ptr_mm b) = rew \<and>
           done_buf_mm b' ! nat (ptr_mm b) = dn \<and> lx_buf_mm b' ! nat (ptr_mm b) = lx \<and>
           gx_buf_mm b' ! nat (ptr_mm b) = gx"
proof -
  have p: "0 \<le> ptr_mm b" "ptr_mm b < max_size_mm b" "ptr_start_mm b = 0"
    using assms(1) by (simp_all add: buffer_inv_mm_def)
  have lens: "int (length (act_buf_mm b)) = max_size_mm b" "int (length (rew_buf_mm b)) = max_size_mm b"
    "int (length (done_buf_mm b)) = max_size_mm b" "int (length (lx_buf_mm b)) = max_size_mm b"
    "int (length (gx_buf_mm b)) = max_size_mm b"
    using assms(1) by (simp_all add: buffer_inv_mm_def)
  have pre: "\<forall>k \<in> set (map fst obs). \<exists>v v2 a1 a2. map_of obs k = Some v \<and> map_of next_obs k = Some v2 \<and>
           map_of (obs_buf_mm b) k = Some a1 \<and> map_of (obs2_buf_mm b) k = Some a2 \<and>
           ptr_mm b < int (length a1) \<and> ptr_mm b < int (length a2)"
  proof
    fix k assume k: "k \<in> set (map fst obs)"
    then have "k \<in> set (map fst (obs_buf_mm b))" using assms(1,2) by (auto simp: buffer_inv_mm_def)
    from inv_mm_streams[OF assms(1) this] obtain a1 a2 where
      "map_of (obs_buf_mm b) k = Some a1" "map_of (obs2_buf_mm b) k = Some a2"
      "length a1 = nat (max_size_mm b)" "length a2 = nat (max_size_mm b)" by blast
    moreover obtain v where "map_of obs k = Some v" using keys_map_of[OF k] by blast
    moreover obtain v2 where "map_of next_obs k = Some v2" using keys_map_of[of k next_obs] k assms(3) by blast
    ultimately show "\<exists>v v2 a1 a2. map_of obs k = Some v \<and> map_of next_obs k = Some v2 \<and>
           map_of (obs_buf_mm b) k = Some a1 \<and> map_of (obs2_buf_mm b) k = Some a2 \<and>
           ptr_mm b < int (length a1) \<and> ptr_mm b < int (length a2)" using p by auto
  qed
  from store_loop[OF p(1) pre] obtain d1 d2 where
    l: "run_steps (concat (map (\<lambda>obs_type. [write_obs obs obs_type,
                      write_obs2 next_obs obs_type]) (map fst obs))) b
             = (None, b\<lparr>obs_buf_mm := d1, obs2_buf_mm := d2\<rparr>)"
       "\<forall>k \<in> set (map fst obs). \<exists>a1 a2. map_of (obs_buf_mm b) k = Some a1 \<and>
               map_of (obs2_buf_mm b) k = Some a2 \<and>
               map_of d1 k = Some (a1[nat (ptr_mm b) := the (map_of obs k)]) \<and>
               map_of d2 k = Some (a2[nat (ptr_mm b) := the (map_of next_obs k)])"
       "\<forall>k. k \<notin> set (map fst obs) \<longrightarrow> map_of d1 k = map_of (obs_buf_mm b) k \<and>
               map_of d2 k = map_of (obs2_buf_mm b) k"
    by blast
  let ?b' = "b\<lparr>obs_buf_mm := d1, obs2_buf_mm := d2,
               act_buf_mm := (act_buf_mm b)[nat (ptr_mm b) := act],
               rew_buf_mm := (rew_buf_mm b)[nat (ptr_mm b) := rew],
               done_buf_mm := (done_buf_mm b)[nat (ptr_mm b) := dn],
               lx_buf_mm := (lx_buf_mm b)[nat (ptr_mm b) := lx],
               gx_buf_mm := (gx_buf_mm b)[nat (ptr_mm b) := gx],
               ptr_mm := (ptr_mm b + 1) mod max_size_mm b,
               size_mm := min (size_mm b + 1) (max_size_mm b)\<rparr>"
  have run: "store_mm b obs act rew next_obs dn lx gx = (None, ?b')"
    using l(1) p lens by (simp add: store_mm_def run_steps_append setitem_in_range advance_ptr_mm_def)
  have n: "nat (ptr_mm b) < length (act_buf_mm b)" "nat (ptr_mm b) < length (rew_buf_mm b)"
    "nat (ptr_mm b) < length (done_buf_mm b)" "nat (ptr_mm b) < length (lx_buf_mm b)"
    "nat (ptr_mm b) < length (gx_buf_mm b)" using p lens by linarith+
  show ?thesis
    apply (rule exI[of _ ?b'])
    using run l(2,3) n by simp
qed

theorem store_mm_writes_witness:
  "buffer_inv_mm \<lparr>env_observation_shapes = [(''rgb'', [2, 2, 3]), (''state'', [4])],
       obs_buf_mm = [(''rgb'', [1::int, 2]), (''state'', [3, 4])],
       obs2_buf_mm = [(''rgb'', [2, 0]), (''state'', [4, 0])],
       act_buf_mm = [1::int, 2], rew_buf_mm = [1, 2], done_buf_mm = [0, 1],
       lx_buf_mm = [3, 4], gx_buf_mm = [7, 8],
       ptr_mm = 1, size_mm = 2, max_size_mm = 2, ptr_start_mm = 0\<rparr> \<and>
   (\<exists>b'. store_mm \<lparr>env_observation_shapes = [(''rgb'', [2, 2, 3]), (''state'', [4])],
       obs_buf_mm = [(''rgb'', [1::int, 2]), (''state'', [3, 4])],
       obs2_buf_mm = [(''rgb'', [2, 0]), (''state'', [4, 0])],
       act_buf_mm = [1::int, 2], rew_buf_mm = [1, 2], done_buf_mm = [0, 1],
       lx_buf_mm = [3, 4], gx_buf_mm = [7, 8],
       ptr_mm = 1, size_mm = 2, max_size_mm = 2, ptr_start_mm = 0\<rparr> [(''state'', 9)] 5 6 [(''state'', 10)] 1 11 12 = (None, b') \<and>
      map_of (obs_buf_mm b') ''rgb'' = Some [1, 2] \<and>
      map_of (obs2_buf_mm b') ''rgb'' = Some [2, 0] \<and>
      map_of (obs_buf_mm b') ''state'' = Some [3, 9] \<and>
      map_of (obs2_buf_mm b') ''state'' = Some [4, 10] \<and>
      act_buf_mm b' ! 1 = 5 \<and> rew_buf_mm b' ! 1 = 6 \<and> done_buf_mm b' ! 1 = 1 \<and>
      lx_buf_mm b' ! 1 = 11 \<and> gx_buf_mm b' ! 1 = 12)"
proof -
  have inv: "buffer_inv_mm \<lparr>env_observation_shapes = [(''rgb'', [2, 2, 3]), (''state'', [4])],
       obs_buf_mm = [(''rgb'', [1::int, 2]), (''state'', [3, 4])],
       obs2_buf_mm = [(''rgb'', [2, 0]), (''state'', [4, 0])],
       act_buf_mm = [1::int, 2], rew_buf_mm = [1, 2], done_buf_mm = [0, 1],
       lx_buf_mm = [3, 4], gx_buf_mm = [7, 8],
       ptr_mm = 1, size_mm = 2, max_size_mm = 2, ptr_start_mm = 0\<rparr>"
    by (simp add: buffer_inv_mm_def)
  from store_mm_writes [where b = "\<lparr>env_observation_shapes = [(''rgb'', [2, 2, 3]), (''state'', [4])],
       obs_buf_mm = [(''rgb'', [1::int, 2]), (''state'', [3, 4])],
       obs2_buf_mm = [(''rgb'', [2, 0]), (''state'', [4, 0])],
       act_buf_mm = [1::int, 2], rew_buf_mm = [1, 2], done_buf_mm = [0, 1],
       lx_buf_mm = [3, 4], gx_buf_mm = [7, 8],
       ptr_mm = 1, size_mm = 2, max_size_mm = 2, ptr_start_mm = 0\<rparr>" and obs = "[(''state'', 9)]" and next_obs = "[(''state'', 10)]"
      and act = 5 and rew = 6 and dn = 1 and lx = 11 and gx = 12, OF inv]
  obtain b' where b: "store_mm \<lparr>env_observation_shapes = [(''rgb'', [2, 2, 3]), (''state'', [4])],
       obs_buf_mm = [(''rgb'', [1::int, 2]), (''state'', [3, 4])],
       obs2_buf_mm = [(''rgb'', [2, 0]), (''state'', [4, 0])],
       act_buf_mm = [1::int, 2], rew_buf_mm = [1, 2], done_buf_mm = [0, 1],
       lx_buf_mm = [3, 4], gx_buf_mm = [7, 8],
       ptr_mm = 1, size_mm = 2, max_size_mm = 2, ptr_start_mm = 0\<rparr> [(''state'', 9)] 5 6 [(''state'', 10)] 1 11 12 = (None, b')"
    and fr: "\<forall>k. k \<notin> set (map fst [(''state'', 9::int)]) \<longrightarrow>
                map_of (obs_buf_mm b') k = map_of (obs_buf_mm \<lparr>env_observation_shapes = [(''rgb'', [2, 2, 3]), (''state'', [4])],
       obs_buf_mm = [(''rgb'', [1::int, 2]), (''state'', [3, 4])],
       obs2_buf_mm = [(''rgb'', [2, 0]), (''state'', [4, 0])],
       act_buf_mm = [1::int, 2], rew_buf_mm = [1, 2], done_buf_mm = [0, 1],
       lx_buf_mm = [3, 4], gx_buf_mm = [7, 8],
       ptr_mm = 1, size_mm = 2, max_size_mm = 2, ptr_start_mm = 0\<rparr>) k \<and>
                map_of (obs2_buf_mm b') k = map_of (obs2_buf_mm \<lparr>env_observation_shapes = [(''rgb'', [2, 2, 3]), (''state'', [4])],
       obs_buf_mm = [(''rgb'', [1::int, 2]), (''state'', [3, 4])],
       obs2_buf_mm = [(''rgb'', [2, 0]), (''state'', [4, 0])],
       act_buf_mm = [1::int, 2], rew_buf_mm = [1, 2], done_buf_mm = [0, 1],
       lx_buf_mm = [3, 4], gx_buf_mm = [7, 8],
       ptr_mm = 1, size_mm = 2, max_size_mm = 2, ptr_start_mm = 0\<rparr>) k"
    and wr: "\<forall>k \<in> set (map fst [(''state'', 9::int)]). \<exists>a1 a2.
                map_of (obs_buf_mm \<lparr>env_observation_shapes = [(''rgb'', [2, 2, 3]), (''state'', [4])],
       obs_buf_mm = [(''rgb'', [1::int, 2]), (''state'', [3, 4])],
       obs2_buf_mm = [(''rgb'', [2, 0]), (''state'', [4, 0])],
       act_buf_mm = [1::int, 2], rew_buf_mm = [1, 2], done_buf_mm = [0, 1],
       lx_buf_mm = [3, 4], gx_buf_mm = [7, 8],
       ptr_mm = 1, size_mm = 2, max_size_mm = 2, ptr_start_mm = 0\<rparr>) k = Some a1 \<and> map_of (obs2_buf_mm \<lparr>env_observation_shapes = [(''rgb'', [2, 2, 3]), (''state'', [4])],
       obs_buf_mm = [(''rgb'', [1::int, 2]), (''state'', [3, 4])],
       obs2_buf_mm = [(''rgb'', [2, 0]), (''state'', [4, 0])],
       act_buf_mm = [1::int, 2], rew_buf_mm = [1, 2], done_buf_mm = [0, 1],
       lx_buf_mm = [3, 4], gx_buf_mm = [7, 8],
       ptr_mm = 1, size_mm = 2, max_size_mm = 2, ptr_start_mm = 0\<rparr>) k = Some a2 \<and>
                map_of (obs_buf_mm b') k = Some (a1[nat (ptr_mm \<lparr>env_observation_shapes = [(''rgb'', [2, 2, 3]), (''state'', [4])],
       obs_buf_mm = [(''rgb'', [1::int, 2]), (''state'', [3, 4])],
       obs2_buf_mm = [(''rgb'', [2, 0]), (''state'', [4, 0])],
       act_buf_mm = [1::int, 2], rew_buf_mm = [1, 2], done_buf_mm = [0, 1],
       lx_buf_mm = [3, 4], gx_buf_mm = [7, 8],
       ptr_mm = 1, size_mm = 2, max_size_mm = 2, ptr_start_mm = 0\<rparr>) := the (map_of [(''state'', 9)] k)]) \<and>
                map_of (obs2_buf_mm b') k = Some (a2[nat (ptr_mm \<lparr>env_observation_shapes = [(''rgb'', [2, 2, 3]), (''state'', [4])],
       obs_buf_mm = [(''rgb'', [1::int, 2]), (''state'', [3, 4])],
       obs2_buf_mm = [(''rgb'', [2, 0]), (''state'', [4, 0])],
       act_buf_mm = [1::int, 2], rew_buf_mm = [1, 2], done_buf_mm = [0, 1],
       lx_buf_mm = [3, 4], gx_buf_mm = [7, 8],
       ptr_mm = 1, size_mm = 2, max_size_mm = 2, ptr_start_mm = 0\<rparr>) := the (map_of [(''state'', 10)] k)])"
    and rest: "act_buf_mm b' ! nat (ptr_mm \<lparr>env_observation_shapes = [(''rgb'', [2, 2, 3]), (''state'', [4])],
       obs_buf_mm = [(''rgb'', [1::int, 2]), (''state'', [3, 4])],
       obs2_buf_mm = [(''rgb'', [2, 0]), (''state'', [4, 0])],
       act_buf_mm = [1::int, 2], rew_buf_mm = [1, 2], done_buf_mm = [0, 1],
       lx_buf_mm = [3, 4], gx_buf_mm = [7, 8],
       ptr_mm = 1, size_mm = 2, max_size_mm = 2, ptr_start_mm = 0\<rparr>) = 5" "rew_buf_mm b' ! nat (ptr_mm \<lparr>env_observation_shapes = [(''rgb'', [2, 2, 3]), (''state'', [4])],
       obs_buf_mm = [(''rgb'', [1::int, 2]), (''state'', [3, 4])],
       obs2_buf_mm = [(''rgb'', [2, 0]), (''state'', [4, 0])],
       act_buf_mm = [1::int, 2], rew_buf_mm = [1, 2], done_buf_mm = [0, 1],
       lx_buf_mm = [3, 4], gx_buf_mm = [7, 8],
       ptr_mm = 1, size_mm = 2, max_size_mm = 2, ptr_start_mm = 0\<rparr>) = 6"
      "done_buf_mm b' ! nat (ptr_mm \<lparr>env_observation_shapes = [(''rgb'', [2, 2, 3]), (''state'', [4])],
       obs_buf_mm = [(''rgb'', [1::int, 2]), (''state'', [3, 4])],
       obs2_buf_mm = [(''rgb'', [2, 0]), (''state'', [4, 0])],
       act_buf_mm = [1::int, 2], rew_buf_mm = [1, 2], done_buf_mm = [0, 1],
       lx_buf_mm = [3, 4], gx_buf_mm = [7, 8],
       ptr_mm = 1, size_mm = 2, max_size_mm = 2, ptr_start_mm = 0\<rparr>) = 1" "lx_buf_mm b' ! nat (ptr_mm \<lparr>env_observation_shapes = [(''rgb'', [2, 2, 3]), (''state'', [4])],
       obs_buf_mm = [(''rgb'', [1::int, 2]), (''state'', [3, 4])],
       obs2_buf_mm = [(''rgb'', [2, 0]), (''state'', [4, 0])],
       act_buf_mm = [1::int, 2], rew_buf_mm = [1, 2], done_buf_mm = [0, 1],
       lx_buf_mm = [3, 4], gx_buf_mm = [7, 8],
       ptr_mm = 1, size_mm = 2, max_size_mm = 2, ptr_start_mm = 0\<rparr>) = 11"
      "gx_buf_mm b' ! nat (ptr_mm \<lparr>env_observation_shapes = [(''rgb'', [2, 2, 3]), (''state'', [4])],
       obs_buf_mm = [(''rgb'', [1::int, 2]), (''state'', [3, 4])],
       obs2_buf_mm = [(''rgb'', [2, 0]), (''state'', [4, 0])],
       act_buf_mm = [1::int, 2], rew_buf_mm = [1, 2], done_buf_mm = [0, 1],
       lx_buf_mm = [3, 4], gx_buf_mm = [7, 8],
       ptr_mm = 1, size_mm = 2, max_size_mm = 2, ptr_start_mm = 0\<rparr>) = 12"
    by auto
  from fr have "map_of (obs_buf_mm b') ''rgb'' = Some [1, 2]"
    "map_of (obs2_buf_mm b') ''rgb'' = Some [2, 0]" by simp_all
  moreover from wr have "map_of (obs_buf_mm b') ''state'' = Some [3, 9]"
    "map_of (obs2_buf_mm b') ''state'' = Some [4, 10]" by simp_all
  ultimately show ?thesis using inv b rest by simp
qed

end
